theory Spec2Isabelle
  imports Main "HOL-Library.Sublist" "HOL-Library.Signed_Division"
begin

section \<open>Byte strings\<close>

text \<open>
  A Go \<^verbatim>\<open>[]byte\<close> (and a Go \<^verbatim>\<open>string\<close>, which is a byte sequence as well) is a list of
  8-bit characters. Offsets and sizes are Go \<^verbatim>\<open>int\<close>s; they are modelled as unbounded
  integers: every offset the archive scanner computes is bounded in absolute value by the
  file length plus the value of a ten-character decimal field, far from the 64-bit limits.
\<close>

type_synonym bytes = string

text \<open>
  \<^verbatim>\<open>data[lo:hi]\<close>. Go panics unless \<open>0 \<le> lo \<le> hi \<le> len(data)\<close>; every use below sits
  under the checks that the source performs, and the places where the source does not
  check are explicit \<open>SliceBoundsPanic\<close> branches.
\<close>

definition slice :: "bytes \<Rightarrow> int \<Rightarrow> int \<Rightarrow> bytes" where
  "slice data lo hi = take (nat (hi - lo)) (drop (nat lo) data)"

subsection \<open>Library functions used by the extractor\<close>

text \<open>
  \<^verbatim>\<open>strings.TrimSpace\<close> removes leading and trailing white space as defined by Unicode.
  The string is read as UTF-8, and Go's decoder accepts only the shortest encoding of a
  code point, so a white-space rune is present at the front (or at the back) exactly when
  the string starts (or ends) with one of the byte sequences below: the six ASCII spaces,
  U+0085, U+00A0, U+1680, U+2000 to U+200A, U+2028, U+2029, U+202F, U+205F and U+3000.
\<close>

definition spaceRunes :: "bytes list" where
  "spaceRunes =
    [[CHR 0x09], [CHR 0x0A], [CHR 0x0B], [CHR 0x0C], [CHR 0x0D], [CHR 0x20],
     [CHR 0xC2, CHR 0x85], [CHR 0xC2, CHR 0xA0],
     [CHR 0xE1, CHR 0x9A, CHR 0x80],
     [CHR 0xE2, CHR 0x80, CHR 0x80], [CHR 0xE2, CHR 0x80, CHR 0x81],
     [CHR 0xE2, CHR 0x80, CHR 0x82], [CHR 0xE2, CHR 0x80, CHR 0x83],
     [CHR 0xE2, CHR 0x80, CHR 0x84], [CHR 0xE2, CHR 0x80, CHR 0x85],
     [CHR 0xE2, CHR 0x80, CHR 0x86], [CHR 0xE2, CHR 0x80, CHR 0x87],
     [CHR 0xE2, CHR 0x80, CHR 0x88], [CHR 0xE2, CHR 0x80, CHR 0x89],
     [CHR 0xE2, CHR 0x80, CHR 0x8A],
     [CHR 0xE2, CHR 0x80, CHR 0xA8], [CHR 0xE2, CHR 0x80, CHR 0xA9],
     [CHR 0xE2, CHR 0x80, CHR 0xAF], [CHR 0xE2, CHR 0x81, CHR 0x9F],
     [CHR 0xE3, CHR 0x80, CHR 0x80]]"

function stripLeft :: "bytes list \<Rightarrow> bytes \<Rightarrow> bytes" where
  "stripLeft encs s =
     (case find (\<lambda>e. e \<noteq> [] \<and> prefix e s) encs of
        None \<Rightarrow> s
      | Some e \<Rightarrow> stripLeft encs (drop (length e) s))"
  by pat_completeness auto
termination
  by (relation "measure (\<lambda>(encs, s). length s)")
     (auto simp: find_Some_iff prefix_def)

definition TrimSpace :: "bytes \<Rightarrow> bytes" where
  "TrimSpace s = rev (stripLeft (map rev spaceRunes) (rev (stripLeft spaceRunes s)))"

text \<open>
  \<^verbatim>\<open>fmt.Sscanf(s, "%d", &size)\<close> on a string that \<^verbatim>\<open>TrimSpace\<close> has already stripped
  (so the scanner's own skipping of leading blanks finds nothing to skip): an optional
  sign, then the longest run of decimal digits, which must not be empty; the token goes to
  \<^verbatim>\<open>strconv.ParseInt(tok, 10, 64)\<close>, which rejects values outside the 64-bit range. Input
  after the token is ignored. On any error the scan stores nothing (\<open>None\<close>), and the
  source, which drops the error, is left with the zero value of \<^verbatim>\<open>size\<close>.
\<close>

definition isDigit :: "char \<Rightarrow> bool" where
  "isDigit c \<longleftrightarrow> 48 \<le> (of_char c :: nat) \<and> (of_char c :: nat) \<le> 57"

fun decimal :: "int \<Rightarrow> bytes \<Rightarrow> int" where
  "decimal acc [] = acc"
| "decimal acc (c # cs) = decimal (10 * acc + (of_char c - 48)) cs"

definition Sscanf_d :: "bytes \<Rightarrow> int option" where
  "Sscanf_d s =
     (let neg = (case s of c # _ \<Rightarrow> c = CHR ''-'' | [] \<Rightarrow> False);
          signed = (case s of c # _ \<Rightarrow> c = CHR ''+'' \<or> c = CHR ''-'' | [] \<Rightarrow> False);
          tok = takeWhile isDigit (if signed then tl s else s);
          v = (if neg then - decimal 0 tok else decimal 0 tok)
      in if tok = [] then None
         else if v < - (2 ^ 63) \<or> 2 ^ 63 \<le> v then None
         else Some v)"

section \<open>Container extractor: \<^verbatim>\<open>extractPKGDEF\<close>\<close>

text \<open>
  The outcomes of \<^verbatim>\<open>extractPKGDEF\<close>: its three error returns, and the run-time panic
  of a slice expression whose bounds are out of range (the source does not check the sign
  of the parsed size, nor of the offset it derives from it).
\<close>

datatype archive_error = NotArchive | TruncatedArchive | PkgdefNotFound | SliceBoundsPanic

definition arMagic :: bytes where
  "arMagic = ''!<arch>'' @ [CHR 0x0A]"

text \<open>The two header fields the loop reads at \<open>offset\<close>: bytes 0..16 and 48..58 of the header.\<close>

definition entryName :: "bytes \<Rightarrow> int \<Rightarrow> bytes" where
  "entryName data offset = TrimSpace (slice (slice data offset (offset + 60)) 0 16)"

definition entrySize :: "bytes \<Rightarrow> int \<Rightarrow> int" where
  "entrySize data offset =
     (case Sscanf_d (TrimSpace (slice (slice data offset (offset + 60)) 48 58)) of
        None \<Rightarrow> 0
      | Some n \<Rightarrow> n)"

text \<open>
  The offset of the following header: past the header, past the entry, and past one
  padding byte when \<^verbatim>\<open>size%2 == 1\<close>. Go's \<^verbatim>\<open>%\<close> truncates towards zero (\<open>smod\<close>), so
  a negative odd size gets no padding byte.
\<close>

definition nextOffset :: "bytes \<Rightarrow> int \<Rightarrow> int" where
  "nextOffset data offset =
     (let size = entrySize data offset; offset1 = offset + 60 + size
      in if size smod 2 = 1 then offset1 + 1 else offset1)"

text \<open>
  The loop \<^verbatim>\<open>for offset < len(data) { ... }\<close>. Nothing in the source bounds the number of
  iterations, so the loop is a partial function: \<open>None\<close> is a run that never returns.
\<close>

partial_function (option) scanEntries :: "bytes \<Rightarrow> int \<Rightarrow> (archive_error + bytes) option" where
  "scanEntries data offset =
     (if \<not> offset < int (length data) then Some (Inl PkgdefNotFound)
      else if offset + 60 > int (length data) then Some (Inl PkgdefNotFound)
      else if offset < 0 then Some (Inl SliceBoundsPanic)
      else if entryName data offset = ''__.PKGDEF'' then
        (if offset + 60 + entrySize data offset > int (length data) then Some (Inl TruncatedArchive)
         else if entrySize data offset < 0 then Some (Inl SliceBoundsPanic)
         else Some (Inr (slice data (offset + 60) (offset + 60 + entrySize data offset))))
      else scanEntries data (nextOffset data offset))"

declare scanEntries.simps [code]

definition extractPKGDEF :: "bytes \<Rightarrow> (archive_error + bytes) option" where
  "extractPKGDEF data =
     (if \<not> prefix arMagic data then Some (Inl NotArchive)
      else scanEntries data 8)"

text \<open>
  The headers the loop visits: the one at offset 8, and the one that follows a visited,
  complete header whose name is not \<^verbatim>\<open>__.PKGDEF\<close>. These are the entries of the archive as
  the extractor sees them.
\<close>

inductive visits :: "bytes \<Rightarrow> int \<Rightarrow> bool" for data :: bytes where
  visits_first: "visits data 8"
| visits_next: "visits data offset \<Longrightarrow> 0 \<le> offset \<Longrightarrow> offset + 60 \<le> int (length data) \<Longrightarrow>
     entryName data offset \<noteq> ''__.PKGDEF'' \<Longrightarrow> visits data (nextOffset data offset)"

text \<open>
  Test data. \<open>arHeader\<close> lays a 60-byte header out as \<^verbatim>\<open>writeArchiveEntry\<close> does: the
  name in 16 columns, 32 columns of other fields, the size in 10 columns, and the two
  closing characters.
\<close>

definition arHeader :: "bytes \<Rightarrow> bytes \<Rightarrow> bytes" where
  "arHeader name sz =
     name @ replicate (16 - length name) (CHR '' '') @ replicate 32 (CHR ''0'')
       @ sz @ replicate (10 - length sz) (CHR '' '') @ [CHR 0x60, CHR 0x0A]"

definition sampleArchive :: bytes where
  "sampleArchive =
     arMagic @ arHeader ''foo'' ''3'' @ ''abc'' @ [CHR 0x0A]
       @ arHeader ''__.PKGDEF'' ''5'' @ ''hello''"

definition loopingArchive :: bytes where
  "loopingArchive = arMagic @ arHeader ''x'' ''-60''"

section \<open>Payload locator: \<^verbatim>\<open>extractUnifiedIR\<close>\<close>

text \<open>
  \<^verbatim>\<open>bytes.Index(s, sep)\<close>: the index of the first position of \<open>s\<close> at which \<open>sep\<close> starts,
  or \<open>-1\<close> when there is none.
\<close>

fun indexFrom :: "bytes \<Rightarrow> bytes \<Rightarrow> int \<Rightarrow> int" where
  "indexFrom [] sep i = (if sep = [] then i else - 1)"
| "indexFrom (c # s) sep i = (if prefix sep (c # s) then i else indexFrom s sep (i + 1))"

definition Index :: "bytes \<Rightarrow> bytes \<Rightarrow> int" where
  "Index s sep = indexFrom s sep 0"

text \<open>The three error returns of \<^verbatim>\<open>extractUnifiedIR\<close>, in the order of the source.\<close>

datatype framing_error = NoStartMarker | NoEndMarker | NotUnifiedIR

definition startMarker :: bytes where
  "startMarker = [CHR 0x0A] @ ''$$B'' @ [CHR 0x0A]"

definition endMarker :: bytes where
  "endMarker = [CHR 0x0A] @ ''$$'' @ [CHR 0x0A]"

definition extractUnifiedIR :: "bytes \<Rightarrow> framing_error + bytes" where
  "extractUnifiedIR pkgdefData =
     (let start = Index pkgdefData startMarker in
      if start = - 1 then Inl NoStartMarker
      else
        let start = start + 5;
            end = Index (drop (nat start) pkgdefData) endMarker in
        if end = - 1 then Inl NoEndMarker
        else
          let exportData = slice pkgdefData start (start + end) in
          if length exportData = 0 \<or> exportData ! 0 \<noteq> CHR ''u'' then Inl NotUnifiedIR
          else Inr exportData)"

text \<open>
  The framing in the words of the specification. \<open>firstOcc sep pre\<close>: in \<open>pre @ sep\<close>
  the marker \<open>sep\<close> starts at no position before the end of \<open>pre\<close>, that is, the marker
  written after \<open>pre\<close> is the first one. \<open>delimits d b\<close>: \<open>b\<close> is the block between the first
  start marker of \<open>d\<close> and the first end marker that follows it. \<open>unterminated d\<close>: a
  start marker is there and no end marker follows it.
\<close>

definition firstOcc :: "bytes \<Rightarrow> bytes \<Rightarrow> bool" where
  "firstOcc sep pre \<longleftrightarrow> (\<forall>m \<in> {0..<length pre}. \<not> prefix sep (drop m (pre @ sep)))"

definition delimits :: "bytes \<Rightarrow> bytes \<Rightarrow> bool" where
  "delimits d b \<longleftrightarrow>
     (\<exists>pre post. d = pre @ startMarker @ b @ endMarker @ post
        \<and> firstOcc startMarker pre \<and> firstOcc endMarker b)"

definition unterminated :: "bytes \<Rightarrow> bool" where
  "unterminated d \<longleftrightarrow>
     (\<exists>pre rest. d = pre @ startMarker @ rest \<and> firstOcc startMarker pre
        \<and> \<not> sublist endMarker rest)"

definition samplePkgdef :: bytes where
  "samplePkgdef = ''go object'' @ [CHR 0x0A] @ startMarker @ ''uDATA'' @ endMarker"

section \<open>The \<^verbatim>\<open>pkgbits\<close> package\<close>

text \<open>
  \<^verbatim>\<open>main.go\<close> imports the package \<^verbatim>\<open>github.com/jespino/unified-ir-reader/pkgbits\<close>, whose
  files are not among the sources at hand. Its envelope decoder and its element cursor are
  therefore modelled from the specification (sections 3, 4.1, 4.2 and 7) and from the
  format description \<^verbatim>\<open>UNIFIED_IR_FORMAT.md\<close>.
\<close>

text \<open>Modelled from the spec: the error classes of section 7 that the decoder and the cursor
  raise; the package that raises them is missing.
\<close>

datatype decode_error =
  StructuralError | DecodeBoundsError | VarintOverflowError | SectionMismatchError | SyncMismatchError

subsection \<open>Primitive codecs\<close>

text \<open>Modelled from the spec: the encoder of unsigned varints, which the round-trip property
  names and no source file contains: ``little-endian, 7 payload bits per byte, high bit =
  continuation''.
\<close>

function encode_uvarint :: "nat \<Rightarrow> bytes" where
  "encode_uvarint u =
     (if u < 128 then [char_of u]
      else char_of (u mod 128 + 128) # encode_uvarint (u div 128))"
  by pat_completeness auto
termination
  by (relation "measure id") auto

declare encode_uvarint.simps [simp del]

text \<open>Modelled from the spec: the missing decoder of unsigned varints. It reads groups of seven
  payload bits, least significant first, until a byte without the continuation bit; it
  ``fails with VarintOverflowError past 64 bits of accumulated value'' and with a bounds
  error when the buffer is exhausted. The result is the value and the unread bytes.
\<close>

fun uvarint_from :: "nat \<Rightarrow> nat \<Rightarrow> bytes \<Rightarrow> decode_error + (nat \<times> bytes)" where
  "uvarint_from shift acc [] = Inl DecodeBoundsError"
| "uvarint_from shift acc (c # rest) =
     (let b = (of_char c :: nat); v = acc + (b mod 128) * 2 ^ shift in
      if v \<ge> 2 ^ 64 then Inl VarintOverflowError
      else if b < 128 then Inr (v, rest)
      else uvarint_from (shift + 7) v rest)"

text \<open>Modelled from the spec: the missing unsigned-varint read, which starts the decoder with shift 0 and value 0.\<close>

definition decode_uvarint :: "bytes \<Rightarrow> decode_error + (nat \<times> bytes)" where
  "decode_uvarint bs = uvarint_from 0 0 bs"

text \<open>Modelled from the spec: the missing zig-zag mapping of signed varints, ``encode
  \<open>n \<ge> 0 \<rightarrow> 2n\<close>, \<open>n < 0 \<rightarrow> -2n-1\<close>; decode by inverse mapping after unsigned-varint decode''.
\<close>

definition encode_zigzag :: "int \<Rightarrow> nat" where
  "encode_zigzag n = (if n \<ge> 0 then nat (2 * n) else nat (- 2 * n - 1))"

text \<open>Modelled from the spec: the inverse of the zig-zag mapping of the missing decoder.\<close>

definition decode_zigzag :: "nat \<Rightarrow> int" where
  "decode_zigzag u = (if even u then int (u div 2) else - int ((u + 1) div 2))"

text \<open>Modelled from the spec: the signed-varint encoder that the round-trip property names and no source file contains: zig-zag, then unsigned varint.\<close>

definition encode_varint :: "int \<Rightarrow> bytes" where
  "encode_varint n = encode_uvarint (encode_zigzag n)"

text \<open>Modelled from the spec: the missing signed-varint read: the inverse mapping after the unsigned-varint decode.\<close>

definition decode_varint :: "bytes \<Rightarrow> decode_error + (int \<times> bytes)" where
  "decode_varint bs =
     (case decode_uvarint bs of
        Inl e \<Rightarrow> Inl e
      | Inr (u, rest) \<Rightarrow> Inr (decode_zigzag u, rest))"

subsection \<open>Envelope decoder\<close>

text \<open>Modelled from the spec: the ten section kinds of the missing package, with the indices of
  section 3 and of the table in \<^verbatim>\<open>UNIFIED_IR_FORMAT.md\<close>.
\<close>

datatype SectionKind =
  SectionString | SectionMeta | SectionPosBase | SectionPkg | SectionName
  | SectionType | SectionObj | SectionObjExt | SectionObjDict | SectionBody

text \<open>Modelled from the spec: the index 0 to 9 that identifies a section kind of the missing package.\<close>

fun sectionIndex :: "SectionKind \<Rightarrow> nat" where
  "sectionIndex SectionString = 0"
| "sectionIndex SectionMeta = 1"
| "sectionIndex SectionPosBase = 2"
| "sectionIndex SectionPkg = 3"
| "sectionIndex SectionName = 4"
| "sectionIndex SectionType = 5"
| "sectionIndex SectionObj = 6"
| "sectionIndex SectionObjExt = 7"
| "sectionIndex SectionObjDict = 8"
| "sectionIndex SectionBody = 9"

text \<open>Modelled from the spec: the ten section kinds of the missing package, in index order.\<close>

definition allSections :: "SectionKind list" where
  "allSections =
     [SectionString, SectionMeta, SectionPosBase, SectionPkg, SectionName,
      SectionType, SectionObj, SectionObjExt, SectionObjDict, SectionBody]"

text \<open>Modelled from the spec: the constants of the missing package that neither the
  specification nor the sources fix. They are parameters of the model: which versions are
  supported, which versions carry a flags field, how the sync-marker flag derives from
  version and flags, and the numeric codes of the sync markers that \<^verbatim>\<open>main.go\<close> and
  \<^verbatim>\<open>PeekObj\<close> name.
\<close>

record format =
  supported :: "nat \<Rightarrow> bool"
  hasFlags :: "nat \<Rightarrow> bool"
  syncEnabled :: "nat \<Rightarrow> nat \<Rightarrow> bool"
  SyncEOF :: nat
  SyncPosBase :: nat
  SyncPkgDef :: nat
  SyncPkg :: nat
  SyncPrivate :: nat
  SyncObject1 :: nat

text \<open>Modelled from the spec: reading the little-endian 32-bit fields of the header of the
  missing envelope decoder; a header that ends early is a structural error.
\<close>

definition le32 :: "bytes \<Rightarrow> nat" where
  "le32 bs = foldr (\<lambda>c v. of_char c + 256 * v) bs 0"

text \<open>Modelled from the spec: one little-endian 32-bit field of the header that the missing decoder parses.\<close>

definition read_u32 :: "bytes \<Rightarrow> decode_error + (nat \<times> bytes)" where
  "read_u32 bs =
     (if length bs < 4 then Inl StructuralError else Inr (le32 (take 4 bs), drop 4 bs))"

text \<open>Modelled from the spec: an array of little-endian 32-bit fields of the header that the missing decoder parses.\<close>

fun read_u32s :: "nat \<Rightarrow> bytes \<Rightarrow> decode_error + (nat list \<times> bytes)" where
  "read_u32s 0 bs = Inr ([], bs)"
| "read_u32s (Suc n) bs =
     (case read_u32 bs of
        Inl e \<Rightarrow> Inl e
      | Inr (v, rest) \<Rightarrow>
          (case read_u32s n rest of
             Inl e \<Rightarrow> Inl e
           | Inr (vs, rest') \<Rightarrow> Inr (v # vs, rest')))"

text \<open>Modelled from the spec: the largest section boundary, from which the missing decoder derives the total element count.\<close>

definition largest :: "nat list \<Rightarrow> nat" where
  "largest xs = foldr max xs 0"

text \<open>Modelled from the spec: the state of the missing envelope decoder (section 4.1): version,
  the sync-marker flag ``derived once from version/flags'', the ten cumulative section
  boundaries, the cumulative element boundaries, the element-data region and the 8-byte
  fingerprint.
\<close>

record PkgDecoder =
  version :: nat
  syncMarkers :: bool
  elemEndsEnds :: "nat list"
  elemEnds :: "nat list"
  elemData :: bytes
  fingerprint :: bytes

text \<open>Modelled from the spec: the missing constructor \<^verbatim>\<open>NewPkgDecoder\<close>. It parses, in order,
  the version, the flags (for the versions that define them), ten section boundaries, as
  many element boundaries as the largest section boundary says, the element data and the
  trailing fingerprint. Decreasing offsets, a boundary beyond the buffer and an unsupported
  version are structural errors.
\<close>

definition NewPkgDecoder :: "format \<Rightarrow> bytes \<Rightarrow> decode_error + PkgDecoder" where
  "NewPkgDecoder fmt input =
     (case read_u32 input of
        Inl e \<Rightarrow> Inl e
      | Inr (ver, r1) \<Rightarrow>
          if \<not> supported fmt ver then Inl StructuralError
          else
            (case (if hasFlags fmt ver then read_u32 r1 else Inr (0, r1)) of
               Inl e \<Rightarrow> Inl e
             | Inr (flags, r2) \<Rightarrow>
                 (case read_u32s 10 r2 of
                    Inl e \<Rightarrow> Inl e
                  | Inr (secEnds, r3) \<Rightarrow>
                      if \<not> sorted secEnds then Inl StructuralError
                      else
                        (case read_u32s (largest secEnds) r3 of
                           Inl e \<Rightarrow> Inl e
                         | Inr (ends, r4) \<Rightarrow>
                             if \<not> sorted ends then Inl StructuralError
                             else if length r4 < 8 then Inl StructuralError
                             else if largest ends > length r4 - 8 then Inl StructuralError
                             else Inr \<lparr>version = ver,
                                       syncMarkers = syncEnabled fmt ver flags,
                                       elemEndsEnds = secEnds,
                                       elemEnds = ends,
                                       elemData = take (length r4 - 8) r4,
                                       fingerprint = drop (length r4 - 8) r4\<rparr>))))"

text \<open>Modelled from the spec: the accessors of the missing envelope decoder, first the number of
  elements that precede a section: the boundary of the section before it.
\<close>

definition sectionStart :: "PkgDecoder \<Rightarrow> SectionKind \<Rightarrow> nat" where
  "sectionStart pr k =
     (if sectionIndex k = 0 then 0 else elemEndsEnds pr ! (sectionIndex k - 1))"

text \<open>Modelled from the spec: the missing \<^verbatim>\<open>NumElems\<close>: this section's boundary minus the previous section's boundary.\<close>

definition NumElems :: "PkgDecoder \<Rightarrow> SectionKind \<Rightarrow> int" where
  "NumElems pr k = int (elemEndsEnds pr ! sectionIndex k) - int (sectionStart pr k)"

text \<open>Modelled from the spec: the missing \<^verbatim>\<open>TotalElems\<close>: the length of the element-boundary table.\<close>

definition TotalElems :: "PkgDecoder \<Rightarrow> int" where
  "TotalElems pr = int (length (elemEnds pr))"

text \<open>Modelled from the spec: the missing \<^verbatim>\<open>Fingerprint\<close>: the eight trailing bytes, not interpreted.\<close>

definition Fingerprint :: "PkgDecoder \<Rightarrow> bytes" where
  "Fingerprint pr = fingerprint pr"

text \<open>Modelled from the spec: the missing \<^verbatim>\<open>SyncMarkers\<close> (\<^verbatim>\<open>SyncMarkersEnabled\<close> in the specification): the flag derived at construction.\<close>

definition SyncMarkers :: "PkgDecoder \<Rightarrow> bool" where
  "SyncMarkers pr = syncMarkers pr"

text \<open>Modelled from the spec: the missing \<^verbatim>\<open>ElementRange\<close>. The element \<open>n\<close> (counted over all
  sections) occupies \<open>[cumulative_end[n-1], cumulative_end[n])\<close> of the element data; an
  index that is not below \<^verbatim>\<open>NumElems(section)\<close> is a bounds error.
\<close>

definition ElementRange :: "PkgDecoder \<Rightarrow> SectionKind \<Rightarrow> nat \<Rightarrow> decode_error + bytes" where
  "ElementRange pr k idx =
     (if \<not> int idx < NumElems pr k then Inl DecodeBoundsError
      else
        let absIdx = sectionStart pr k + idx;
            start = (if absIdx = 0 then 0 else elemEnds pr ! (absIdx - 1));
            end = elemEnds pr ! absIdx
        in Inr (take (end - start) (drop start (elemData pr))))"

text \<open>Modelled from the spec: the missing \<^verbatim>\<open>StringIdx\<close>, which \<^verbatim>\<open>main.go\<close> calls for the
  elements of the string section. By \<^verbatim>\<open>UNIFIED_IR_FORMAT.md\<close> a string is the raw bytes of
  its element, ``length determined by element bounds''.
\<close>

definition StringIdx :: "PkgDecoder \<Rightarrow> nat \<Rightarrow> decode_error + bytes" where
  "StringIdx pr idx = ElementRange pr SectionString idx"

subsection \<open>Element cursor\<close>

text \<open>Modelled from the spec: the state of the missing element cursor (section 4.2), which
  \<^verbatim>\<open>main.go\<close> obtains from \<^verbatim>\<open>NewDecoder\<close>: the unread bytes of the element, the reference
  table decoded at construction, the number of table entries that \<^verbatim>\<open>Reloc\<close> has consumed,
  and the payload's sync-marker flag.
\<close>

record Decoder =
  Data :: bytes
  Relocs :: "(nat \<times> nat) list"
  RelocNext :: nat
  SyncOn :: bool

text \<open>Modelled from the spec: the primitive reads of the missing cursor. Each returns the value
  read and the advanced cursor, or the error. A boolean is one byte, non-zero meaning true;
  \<^verbatim>\<open>Len\<close> is an unsigned varint; a string is an unsigned-varint length followed by that
  many raw bytes.
\<close>

definition Bool :: "Decoder \<Rightarrow> decode_error + (bool \<times> Decoder)" where
  "Bool r =
     (case Data r of
        [] \<Rightarrow> Inl DecodeBoundsError
      | c # rest \<Rightarrow> Inr (c \<noteq> CHR 0x00, r\<lparr>Data := rest\<rparr>))"

text \<open>Modelled from the spec: the missing unsigned-varint read of the cursor.\<close>

definition Uint64 :: "Decoder \<Rightarrow> decode_error + (nat \<times> Decoder)" where
  "Uint64 r =
     (case decode_uvarint (Data r) of
        Inl e \<Rightarrow> Inl e
      | Inr (v, rest) \<Rightarrow> Inr (v, r\<lparr>Data := rest\<rparr>))"

text \<open>Modelled from the spec: the missing signed-varint (zig-zag) read of the cursor.\<close>

definition Int64 :: "Decoder \<Rightarrow> decode_error + (int \<times> Decoder)" where
  "Int64 r =
     (case decode_varint (Data r) of
        Inl e \<Rightarrow> Inl e
      | Inr (v, rest) \<Rightarrow> Inr (v, r\<lparr>Data := rest\<rparr>))"

text \<open>Modelled from the spec: the missing \<^verbatim>\<open>Len\<close>, an unsigned varint that the caller uses as a count; \<^verbatim>\<open>main.go\<close> takes it as a Go \<^verbatim>\<open>int\<close>.\<close>

definition Len :: "Decoder \<Rightarrow> decode_error + (int \<times> Decoder)" where
  "Len r =
     (case Uint64 r of
        Inl e \<Rightarrow> Inl e
      | Inr (v, r') \<Rightarrow> Inr (int v, r'))"

text \<open>Modelled from the spec: the missing string read of the cursor: an unsigned-varint length followed by that many raw bytes.\<close>

definition String :: "Decoder \<Rightarrow> decode_error + (bytes \<times> Decoder)" where
  "String r =
     (case Uint64 r of
        Inl e \<Rightarrow> Inl e
      | Inr (n, r') \<Rightarrow>
          if length (Data r') < n then Inl DecodeBoundsError
          else Inr (take n (Data r'), r'\<lparr>Data := drop n (Data r')\<rparr>))"

text \<open>Modelled from the spec: the missing \<^verbatim>\<open>Reloc(expectedSection)\<close>. It ``pops the next
  pre-decoded reference-table entry; fails with a SectionMismatchError if its recorded
  section kind differs from expectedSection; returns the recorded element index''. The
  specification does not say what happens when no entry is left; the model reports a bounds
  error there.
\<close>

definition Reloc :: "SectionKind \<Rightarrow> Decoder \<Rightarrow> decode_error + (nat \<times> Decoder)" where
  "Reloc k r =
     (if \<not> RelocNext r < length (Relocs r) then Inl DecodeBoundsError
      else
        let (kind, idx) = Relocs r ! RelocNext r in
        if kind \<noteq> sectionIndex k then Inl SectionMismatchError
        else Inr (idx, r\<lparr>RelocNext := RelocNext r + 1\<rparr>))"

text \<open>Modelled from the spec: the missing \<^verbatim>\<open>Sync(expectedKind)\<close>. Without sync markers it does
  nothing; with them it reads the marker kind, then a count and that many discarded
  varints, and then fails if the kind is not the expected one.
\<close>

fun skip_uvarints :: "nat \<Rightarrow> bytes \<Rightarrow> decode_error + bytes" where
  "skip_uvarints 0 bs = Inr bs"
| "skip_uvarints (Suc n) bs =
     (case decode_uvarint bs of
        Inl e \<Rightarrow> Inl e
      | Inr (v, rest) \<Rightarrow> skip_uvarints n rest)"

text \<open>Modelled from the spec: the missing \<^verbatim>\<open>Sync(expectedKind)\<close>, as described above.\<close>

definition Sync :: "nat \<Rightarrow> Decoder \<Rightarrow> decode_error + Decoder" where
  "Sync expectedKind r =
     (if \<not> SyncOn r then Inr r
      else
        (case Uint64 r of
           Inl e \<Rightarrow> Inl e
         | Inr (kind, r1) \<Rightarrow>
             (case Uint64 r1 of
                Inl e \<Rightarrow> Inl e
              | Inr (n, r2) \<Rightarrow>
                  (case skip_uvarints n (Data r2) of
                     Inl e \<Rightarrow> Inl e
                   | Inr rest \<Rightarrow>
                       if kind \<noteq> expectedKind then Inl SyncMismatchError
                       else Inr (r2\<lparr>Data := rest\<rparr>)))))"

text \<open>Modelled from the spec: the missing constructor of the cursor (\<^verbatim>\<open>NewCursor\<close> in the
  specification, \<^verbatim>\<open>NewDecoder\<close> in \<^verbatim>\<open>main.go\<close>). It takes the element's byte range from
  the envelope decoder, decodes the whole reference table (a length, then that many pairs of
  section kind and element index) before any field is read, and checks the first sync
  marker.
\<close>

fun read_relocs :: "nat \<Rightarrow> bytes \<Rightarrow> decode_error + ((nat \<times> nat) list \<times> bytes)" where
  "read_relocs 0 bs = Inr ([], bs)"
| "read_relocs (Suc n) bs =
     (case decode_uvarint bs of
        Inl e \<Rightarrow> Inl e
      | Inr (kind, r1) \<Rightarrow>
          (case decode_uvarint r1 of
             Inl e \<Rightarrow> Inl e
           | Inr (idx, r2) \<Rightarrow>
               (case read_relocs n r2 of
                  Inl e \<Rightarrow> Inl e
                | Inr (tab, r3) \<Rightarrow> Inr ((kind, idx) # tab, r3))))"

text \<open>Modelled from the spec: the missing constructor of the cursor, as described above.\<close>

definition NewDecoder :: "PkgDecoder \<Rightarrow> SectionKind \<Rightarrow> nat \<Rightarrow> nat \<Rightarrow> decode_error + Decoder" where
  "NewDecoder pr k idx marker =
     (case ElementRange pr k idx of
        Inl e \<Rightarrow> Inl e
      | Inr elem \<Rightarrow>
          (case decode_uvarint elem of
             Inl e \<Rightarrow> Inl e
           | Inr (n, r1) \<Rightarrow>
               (case read_relocs n r1 of
                  Inl e \<Rightarrow> Inl e
                | Inr (tab, r2) \<Rightarrow>
                    Sync marker \<lparr>Data = r2, Relocs = tab, RelocNext = 0,
                                 SyncOn = syncMarkers pr\<rparr>)))"

text \<open>Modelled from the spec: running a sequence of \<^verbatim>\<open>Reloc\<close> calls, one per expected section,
  on the missing cursor; the result is the list of returned indices and the final cursor.
\<close>

fun relocAll :: "SectionKind list \<Rightarrow> Decoder \<Rightarrow> decode_error + (nat list \<times> Decoder)" where
  "relocAll [] r = Inr ([], r)"
| "relocAll (k # ks) r =
     (case Reloc k r of
        Inl e \<Rightarrow> Inl e
      | Inr (idx, r1) \<Rightarrow>
          (case relocAll ks r1 of
             Inl e \<Rightarrow> Inl e
           | Inr (idxs, r2) \<Rightarrow> Inr (idx # idxs, r2)))"

text \<open>Modelled from the spec: the missing \<^verbatim>\<open>PeekObj\<close>, ``a cheap, side-effect-free inspection
  that decodes only the leading sync marker and kind tag of an Obj-section element without
  materializing its reference table or remaining fields''. The bytes of the table are
  skipped, not stored. \<open>peekTag\<close> is the value inspected; \<^verbatim>\<open>PeekObj\<close> and \<open>decodeElement\<close>
  thread the envelope decoder through, as operations on the one object that outlives them:
  \<open>decodeElement\<close> is a full structured decode, a fresh cursor on which a reader \<open>rd\<close> runs.
\<close>

definition peekTag :: "format \<Rightarrow> PkgDecoder \<Rightarrow> nat \<Rightarrow> decode_error + nat" where
  "peekTag fmt pr idx =
     (case ElementRange pr SectionObj idx of
        Inl e \<Rightarrow> Inl e
      | Inr elem \<Rightarrow>
          (case decode_uvarint elem of
             Inl e \<Rightarrow> Inl e
           | Inr (n, r1) \<Rightarrow>
               (case skip_uvarints (2 * n) r1 of
                  Inl e \<Rightarrow> Inl e
                | Inr r2 \<Rightarrow>
                    (case Sync (SyncObject1 fmt)
                            \<lparr>Data = r2, Relocs = [], RelocNext = 0, SyncOn = syncMarkers pr\<rparr> of
                       Inl e \<Rightarrow> Inl e
                     | Inr r3 \<Rightarrow>
                         (case Uint64 r3 of
                            Inl e \<Rightarrow> Inl e
                          | Inr (tag, r4) \<Rightarrow> Inr tag)))))"

text \<open>Modelled from the spec: the missing \<^verbatim>\<open>PeekObj\<close> as an operation on the envelope decoder, which it returns as it was.\<close>

definition PeekObj :: "format \<Rightarrow> nat \<Rightarrow> PkgDecoder \<Rightarrow> (decode_error + nat) \<times> PkgDecoder" where
  "PeekObj fmt idx pr = (peekTag fmt pr idx, pr)"

text \<open>Modelled from the spec: a full structured decode of one element by the missing package: a fresh cursor, on which the reader \<open>rd\<close> runs from the start.\<close>

definition decodeElement ::
  "SectionKind \<Rightarrow> nat \<Rightarrow> nat \<Rightarrow> (Decoder \<Rightarrow> decode_error + ('a \<times> Decoder)) \<Rightarrow> PkgDecoder
     \<Rightarrow> (decode_error + 'a) \<times> PkgDecoder" where
  "decodeElement k idx marker rd pr =
     ((case NewDecoder pr k idx marker of
         Inl e \<Rightarrow> Inl e
       | Inr r \<Rightarrow> (case rd r of Inl e \<Rightarrow> Inl e | Inr (v, r') \<Rightarrow> Inr v)),
      pr)"

subsection \<open>A sample payload\<close>

text \<open>
  Test data: a format in which version 0 is the only supported one, has no flags field and
  no sync markers, and a payload of eleven elements: two strings, the public and the private
  root, two position bases, two packages, one object and two bodies. The private root lists
  two bodies, \<^verbatim>\<open>p.f\<close> and \<^verbatim>\<open>q.g\<close>.
\<close>

definition sampleFormat :: format where
  "sampleFormat =
     \<lparr>supported = (\<lambda>v. v = 0), hasFlags = (\<lambda>v. False), syncEnabled = (\<lambda>v f. False),
      SyncEOF = 1, SyncPosBase = 2, SyncPkgDef = 3, SyncPkg = 4, SyncPrivate = 5,
      SyncObject1 = 6\<rparr>"

definition sampleHeader :: bytes where
  "sampleHeader =
     [CHR 0x00, CHR 0x00, CHR 0x00, CHR 0x00, CHR 0x02, CHR 0x00, CHR 0x00, CHR 0x00, CHR 0x04, CHR 0x00,
     CHR 0x00, CHR 0x00, CHR 0x06, CHR 0x00, CHR 0x00, CHR 0x00, CHR 0x08, CHR 0x00, CHR 0x00, CHR 0x00,
     CHR 0x08, CHR 0x00, CHR 0x00, CHR 0x00, CHR 0x08, CHR 0x00, CHR 0x00, CHR 0x00, CHR 0x09, CHR 0x00,
     CHR 0x00, CHR 0x00, CHR 0x09, CHR 0x00, CHR 0x00, CHR 0x00, CHR 0x09, CHR 0x00, CHR 0x00, CHR 0x00,
     CHR 0x0B, CHR 0x00, CHR 0x00, CHR 0x00, CHR 0x02, CHR 0x00, CHR 0x00, CHR 0x00, CHR 0x04, CHR 0x00,
     CHR 0x00, CHR 0x00, CHR 0x05, CHR 0x00, CHR 0x00, CHR 0x00, CHR 0x14, CHR 0x00, CHR 0x00, CHR 0x00,
     CHR 0x1B, CHR 0x00, CHR 0x00, CHR 0x00, CHR 0x22, CHR 0x00, CHR 0x00, CHR 0x00, CHR 0x29, CHR 0x00,
     CHR 0x00, CHR 0x00, CHR 0x32, CHR 0x00, CHR 0x00, CHR 0x00, CHR 0x34, CHR 0x00, CHR 0x00, CHR 0x00,
     CHR 0x35, CHR 0x00, CHR 0x00, CHR 0x00, CHR 0x36, CHR 0x00, CHR 0x00, CHR 0x00]"

definition sampleData :: bytes where
  "sampleData =
     [CHR 0x68, CHR 0x69, CHR 0x79, CHR 0x6F, CHR 0x00, CHR 0x02, CHR 0x09, CHR 0x00, CHR 0x09, CHR 0x01,
     CHR 0x00, CHR 0x02, CHR 0x01, CHR 0x70, CHR 0x01, CHR 0x66, CHR 0x01, CHR 0x71, CHR 0x01, CHR 0x67,
     CHR 0x00, CHR 0x04, CHR 0x61, CHR 0x2E, CHR 0x67, CHR 0x6F, CHR 0x01, CHR 0x00, CHR 0x04, CHR 0x62,
     CHR 0x2E, CHR 0x67, CHR 0x6F, CHR 0x00, CHR 0x00, CHR 0x00, CHR 0x04, CHR 0x6D, CHR 0x61, CHR 0x69,
     CHR 0x6E, CHR 0x00, CHR 0x03, CHR 0x66, CHR 0x6D, CHR 0x74, CHR 0x03, CHR 0x66, CHR 0x6D, CHR 0x74,
     CHR 0x00, CHR 0x03, CHR 0x00, CHR 0x00]"

definition samplePayload :: bytes where
  "samplePayload = sampleHeader @ sampleData @ ''FINGERPR''"

definition sampleDecoder :: PkgDecoder where
  "sampleDecoder =
     \<lparr>version = 0, syncMarkers = False,
      elemEndsEnds = [2, 4, 6, 8, 8, 8, 9, 9, 9, 11],
      elemEnds = [2, 4, 5, 20, 27, 34, 41, 50, 52, 53, 54],
      elemData = sampleData, fingerprint = ''FINGERPR''\<rparr>"

text \<open>The cursor that \<^verbatim>\<open>NewDecoder\<close> returns on the private root of the sample.\<close>

definition sampleCursor :: Decoder where
  "sampleCursor =
     \<lparr>Data = [CHR 0x00, CHR 0x02, CHR 0x01, CHR 0x70, CHR 0x01, CHR 0x66,
              CHR 0x01, CHR 0x71, CHR 0x01, CHR 0x67],
      Relocs = [(9, 0), (9, 1)], RelocNext = 0, SyncOn = False\<rparr>"

section \<open>The report: \<^verbatim>\<open>showDetailedFormat\<close>\<close>

text \<open>
  What \<^verbatim>\<open>showDetailedFormat\<close> writes to standard output is a list of lines. A line is
  kept as the \<^verbatim>\<open>Printf\<close> call that makes it and the values it formats; the rendering of
  the values (\<^verbatim>\<open>%q\<close>, \<^verbatim>\<open>%d\<close>, hexadecimal, the box-drawing banner) is not modelled.
  \<open>Trailer k\<close> is the line \<^verbatim>\<open>... and k more\<close>.
\<close>

datatype line =
    BannerTop | BannerTitle | BannerBottom | Rule | Blank
  | Heading string
  | SyncMarkersLine bool
  | TotalElementsLine int
  | FingerprintLine bytes
  | SectionLine string int
  | TotalStrings int
  | ShowingFirst int
  | StringEntry nat bytes
  | EmptyLine
  | NoneLine
  | PosBaseEntry nat bytes bool
  | PkgEntry nat bytes bytes
  | PkgError nat decode_error
  | TotalTypes int
  | TotalObjects int
  | ObjCounts "(string \<times> nat) list"
  | HasInittask bool
  | FunctionBodies int
  | BodyEntry nat bytes bytes nat
  | Trailer int

text \<open>
  The missing package reports a failure by panicking: \<^verbatim>\<open>NewPkgDecoder\<close>, \<^verbatim>\<open>StringIdx\<close>,
  \<^verbatim>\<open>PeekObj\<close> and the cursor reads return no error value to \<^verbatim>\<open>main.go\<close>, and the package
  loop of \<^verbatim>\<open>showDetailedFormat\<close> recovers from panics. An error of the modelled package is
  therefore a panic of the caller. A piece of the report is the lines it has printed and,
  if it panicked, the error it panicked with.
\<close>

type_synonym report = "line list \<times> decode_error option"

definition say :: "line list \<Rightarrow> report" where
  "say ls = (ls, None)"

definition panic :: "decode_error \<Rightarrow> report" where
  "panic e = ([], Some e)"

definition andThen :: "report \<Rightarrow> report \<Rightarrow> report" where
  "andThen a b = (case snd a of Some e \<Rightarrow> a | None \<Rightarrow> (fst a @ fst b, snd b))"

subsection \<open>String table\<close>

text \<open>
  \<^verbatim>\<open>if len(str) > 80 { str = str[:77] + "..." }\<close>, then the two \<^verbatim>\<open>strings.ReplaceAll\<close>
  calls, which write a newline as backslash-n and a tab as backslash-t.
\<close>

definition shorten :: "bytes \<Rightarrow> bytes" where
  "shorten str = (if length str > 80 then take 77 str @ ''...'' else str)"

definition escape :: "bytes \<Rightarrow> bytes" where
  "escape str =
     concat (map (\<lambda>c. if c = CHR 0x0A then [CHR 0x5C, CHR ''n'']
                       else if c = CHR 0x09 then [CHR 0x5C, CHR ''t'']
                       else [c]) str)"

fun stringLoop :: "PkgDecoder \<Rightarrow> nat list \<Rightarrow> report" where
  "stringLoop decoder [] = say []"
| "stringLoop decoder (i # rest) =
     (case StringIdx decoder i of
        Inl e \<Rightarrow> panic e
      | Inr str \<Rightarrow> andThen (say [StringEntry i (escape (shorten str))]) (stringLoop decoder rest))"

definition stringTable :: "PkgDecoder \<Rightarrow> int \<Rightarrow> report" where
  "stringTable decoder limit =
     (let stringCount = NumElems decoder SectionString in
      if stringCount > 0 then
        let maxShow = (if limit > 0 \<and> limit < stringCount then limit else stringCount) in
        andThen (say ([TotalStrings stringCount]
                      @ (if limit > 0 \<and> limit < stringCount then [ShowingFirst maxShow] else [])
                      @ [Blank]))
       (andThen (stringLoop decoder [0..<nat maxShow])
                (say (if maxShow < stringCount then [Trailer (stringCount - maxShow)] else [])))
      else say [EmptyLine])"

subsection \<open>Position bases\<close>

fun posBaseLoop :: "format \<Rightarrow> PkgDecoder \<Rightarrow> nat list \<Rightarrow> report" where
  "posBaseLoop fmt decoder [] = say []"
| "posBaseLoop fmt decoder (i # rest) =
     (case NewDecoder decoder SectionPosBase i (SyncPosBase fmt) of
        Inl e \<Rightarrow> panic e
      | Inr r \<Rightarrow>
          (case String r of
             Inl e \<Rightarrow> panic e
           | Inr (filename, r1) \<Rightarrow>
               (case Bool r1 of
                  Inl e \<Rightarrow> panic e
                | Inr (isFileBase, r2) \<Rightarrow>
                    andThen (say [PosBaseEntry i filename isFileBase])
                            (posBaseLoop fmt decoder rest))))"

definition posBaseTable :: "format \<Rightarrow> PkgDecoder \<Rightarrow> int \<Rightarrow> report" where
  "posBaseTable fmt decoder limit =
     (let posBaseCount = NumElems decoder SectionPosBase in
      if posBaseCount > 0 then
        let maxShow = (if limit > 0 \<and> limit < posBaseCount then limit else posBaseCount) in
        andThen (posBaseLoop fmt decoder [0..<nat maxShow])
                (say (if maxShow < posBaseCount then [Trailer (posBaseCount - maxShow)] else []))
      else say [NoneLine])"

subsection \<open>Package table\<close>

text \<open>
  The body of the loop is a function literal with a deferred \<^verbatim>\<open>recover\<close>: a panic of the
  decoder inside it ends the entry with the line \<^verbatim>\<open>(error reading package: ...)\<close> and the
  loop goes on.
\<close>

definition pkgEntry :: "format \<Rightarrow> PkgDecoder \<Rightarrow> nat \<Rightarrow> line" where
  "pkgEntry fmt decoder i =
     (case NewDecoder decoder SectionPkg i (SyncPkgDef fmt) of
        Inl e \<Rightarrow> PkgError i e
      | Inr r \<Rightarrow>
          (case Sync (SyncPkg fmt) r of
             Inl e \<Rightarrow> PkgError i e
           | Inr r1 \<Rightarrow>
               (case String r1 of
                  Inl e \<Rightarrow> PkgError i e
                | Inr (path, r2) \<Rightarrow>
                    (case String r2 of
                       Inl e \<Rightarrow> PkgError i e
                     | Inr (name, r3) \<Rightarrow>
                         if path = [] then PkgEntry i ''<self>'' name
                         else PkgEntry i path name))))"

definition pkgTable :: "format \<Rightarrow> PkgDecoder \<Rightarrow> int \<Rightarrow> report" where
  "pkgTable fmt decoder limit =
     (let pkgCount = NumElems decoder SectionPkg in
      if pkgCount > 0 then
        let maxShow = (if limit > 0 \<and> limit < pkgCount then limit else pkgCount) in
        andThen (say (map (pkgEntry fmt decoder) [0..<nat maxShow]))
                (say (if maxShow < pkgCount then [Trailer (pkgCount - maxShow)] else []))
      else say [NoneLine])"

subsection \<open>Object summary\<close>

text \<open>
  \<^verbatim>\<open>objTagName\<close>, with the object codes of \<^verbatim>\<open>UNIFIED_IR_FORMAT.md\<close>. The histogram is a Go
  map from names to counts; it is kept as an association list in the order in which the
  names first occur. Go prints a map in no fixed order, so the report holds the histogram
  as one item.
\<close>

function showNat :: "nat \<Rightarrow> string" where
  "showNat n = (if n < 10 then [char_of (48 + n)] else showNat (n div 10) @ [char_of (48 + n mod 10)])"
  by pat_completeness auto
termination
  by (relation "measure id") auto

declare showNat.simps [simp del]

definition objTagName :: "nat \<Rightarrow> string" where
  "objTagName tag =
     (if tag = 0 then ''Alias''
      else if tag = 1 then ''Const''
      else if tag = 2 then ''Type''
      else if tag = 3 then ''Func''
      else if tag = 4 then ''Var''
      else if tag = 5 then ''Stub''
      else ''Unknown('' @ showNat tag @ '')'')"

fun bump :: "string \<Rightarrow> (string \<times> nat) list \<Rightarrow> (string \<times> nat) list" where
  "bump name [] = [(name, 1)]"
| "bump name ((k, v) # rest) = (if k = name then (k, v + 1) # rest else (k, v) # bump name rest)"

fun objLoop ::
  "format \<Rightarrow> nat list \<Rightarrow> (string \<times> nat) list \<Rightarrow> PkgDecoder
     \<Rightarrow> (decode_error + (string \<times> nat) list) \<times> PkgDecoder" where
  "objLoop fmt [] objCounts decoder = (Inr objCounts, decoder)"
| "objLoop fmt (i # rest) objCounts decoder =
     (case PeekObj fmt i decoder of
        (Inl e, decoder') \<Rightarrow> (Inl e, decoder')
      | (Inr tag, decoder') \<Rightarrow> objLoop fmt rest (bump (objTagName tag) objCounts) decoder')"

definition objTable :: "format \<Rightarrow> PkgDecoder \<Rightarrow> report \<times> PkgDecoder" where
  "objTable fmt decoder =
     (let objCount = NumElems decoder SectionObj in
      if objCount > 0 then
        (case objLoop fmt [0..<nat objCount] [] decoder of
           (Inl e, decoder') \<Rightarrow> (panic e, decoder')
         | (Inr objCounts, decoder') \<Rightarrow> (say [TotalObjects objCount, ObjCounts objCounts], decoder'))
      else (say [NoneLine], decoder))"

subsection \<open>Private root\<close>

text \<open>
  The private root is element 1 of the meta section (\<^verbatim>\<open>UNIFIED_IR_FORMAT.md\<close>). The loop
  over the bodies runs \<^verbatim>\<open>for i := 0; i < bodyCount; i++\<close> and prints under \<^verbatim>\<open>if i < maxShow\<close>.
  Beside the lines, the model returns the cursor as the reads leave it, or the error of the
  read that panicked.
\<close>

definition PrivateRootIdx :: nat where
  "PrivateRootIdx = 1"

fun bodyLoop :: "int \<Rightarrow> nat list \<Rightarrow> Decoder \<Rightarrow> line list \<times> (decode_error + Decoder)" where
  "bodyLoop maxShow [] r = ([], Inr r)"
| "bodyLoop maxShow (i # rest) r =
     (case String r of
        Inl e \<Rightarrow> ([], Inl e)
      | Inr (pkgPath, r1) \<Rightarrow>
          (case String r1 of
             Inl e \<Rightarrow> ([], Inl e)
           | Inr (symName, r2) \<Rightarrow>
               (case Reloc SectionBody r2 of
                  Inl e \<Rightarrow> ([], Inl e)
                | Inr (bodyIdx, r3) \<Rightarrow>
                    (case bodyLoop maxShow rest r3 of
                       (ls, res) \<Rightarrow>
                         ((if int i < maxShow then [BodyEntry i pkgPath symName bodyIdx] else [])
                            @ ls, res)))))"

definition privateRoot ::
  "format \<Rightarrow> PkgDecoder \<Rightarrow> int \<Rightarrow> line list \<times> (decode_error + Decoder)" where
  "privateRoot fmt decoder limit =
     (case NewDecoder decoder SectionMeta PrivateRootIdx (SyncPrivate fmt) of
        Inl e \<Rightarrow> ([], Inl e)
      | Inr r \<Rightarrow>
          (case Bool r of
             Inl e \<Rightarrow> ([], Inl e)
           | Inr (hasInittask, r1) \<Rightarrow>
               (case Len r1 of
                  Inl e \<Rightarrow> ([HasInittask hasInittask], Inl e)
                | Inr (bodyCount, r2) \<Rightarrow>
                    if bodyCount > 0 then
                      let maxShow = (if limit > 0 \<and> limit < bodyCount then limit else bodyCount) in
                      (case bodyLoop maxShow [0..<nat bodyCount] r2 of
                         (ls, Inl e) \<Rightarrow>
                           ([HasInittask hasInittask, FunctionBodies bodyCount, Blank] @ ls, Inl e)
                       | (ls, Inr r3) \<Rightarrow>
                           ([HasInittask hasInittask, FunctionBodies bodyCount, Blank] @ ls
                              @ (if maxShow < bodyCount then [Trailer (bodyCount - maxShow)] else []),
                            Sync (SyncEOF fmt) r3))
                    else
                      ([HasInittask hasInittask, FunctionBodies bodyCount],
                       Sync (SyncEOF fmt) r2))))"

subsection \<open>Listings\<close>

text \<open>
  The shape of a listing: some lines that are neither entries nor trailers, then \<open>n\<close>
  entries, then the trailer \<open>tr\<close> if there is one, and nothing after it.
\<close>

fun isEntry :: "line \<Rightarrow> bool" where
  "isEntry (StringEntry i s) = True"
| "isEntry (PosBaseEntry i f b) = True"
| "isEntry (PkgEntry i p n) = True"
| "isEntry (PkgError i e) = True"
| "isEntry (BodyEntry i p s b) = True"
| "isEntry l = False"

fun isTrailer :: "line \<Rightarrow> bool" where
  "isTrailer (Trailer k) = True"
| "isTrailer l = False"

definition listed :: "line list \<Rightarrow> nat \<Rightarrow> int option \<Rightarrow> bool" where
  "listed out n tr \<longleftrightarrow>
     (\<exists>pre es. out = pre @ es @ (case tr of None \<Rightarrow> [] | Some k \<Rightarrow> [Trailer k])
        \<and> length es = n \<and> list_all isEntry es
        \<and> list_all (\<lambda>l. \<not> isEntry l \<and> \<not> isTrailer l) pre)"

subsection \<open>The whole report\<close>

text \<open>
  How a call of \<^verbatim>\<open>showDetailedFormat\<close> ends: it returns a Go \<^verbatim>\<open>error\<close> (\<open>None\<close> is
  \<^verbatim>\<open>nil\<close>), or a call of the decoder panics and the panic leaves the function. The
  function has one \<^verbatim>\<open>return\<close> statement, \<^verbatim>\<open>return nil\<close>.
\<close>

datatype outcome = Returned "string option" | Panicked decode_error

definition sectionNames :: "(SectionKind \<times> string) list" where
  "sectionNames =
     [(SectionString, ''String''), (SectionMeta, ''Meta''), (SectionPosBase, ''PosBase''),
      (SectionPkg, ''Pkg''), (SectionName, ''Name''), (SectionType, ''Type''),
      (SectionObj, ''Obj''), (SectionObjExt, ''ObjExt''), (SectionObjDict, ''ObjDict''),
      (SectionBody, ''Body'')]"

definition showDetailedFormat :: "format \<Rightarrow> bytes \<Rightarrow> int \<Rightarrow> line list \<times> outcome" where
  "showDetailedFormat fmt exportData limit =
     (case NewPkgDecoder fmt (drop 1 exportData) of
        Inl e \<Rightarrow> ([], Panicked e)
      | Inr decoder \<Rightarrow>
          let (objs, decoder') = objTable fmt decoder;
              (rootLines, rootResult) = privateRoot fmt decoder' limit;
              rep =
                andThen (say [BannerTop, BannerTitle, BannerBottom, Blank,
                              Heading ''=== Format Metadata ==='',
                              SyncMarkersLine (SyncMarkers decoder),
                              TotalElementsLine (TotalElems decoder),
                              FingerprintLine (Fingerprint decoder), Blank,
                              Heading ''=== Section Statistics ==='']) (
                andThen (say (map (\<lambda>(kind, name). SectionLine name (NumElems decoder kind))
                               sectionNames)) (
                andThen (say [Blank, Heading ''=== String Table (Deduplicated Strings) ==='']) (
                andThen (stringTable decoder limit) (
                andThen (say [Blank, Heading ''=== Position Bases (Source Files) ==='']) (
                andThen (posBaseTable fmt decoder limit) (
                andThen (say [Blank, Heading ''=== Package Table ==='']) (
                andThen (pkgTable fmt decoder limit) (
                andThen (say [Blank, Heading ''=== Type Table ==='',
                              TotalTypes (NumElems decoder SectionType), Blank,
                              Heading ''=== Object Table Summary ==='']) (
                andThen objs (
                andThen (say [Blank,
                              Heading ''=== Private Root (Function Bodies & Internal Data) ==='']) (
                andThen (rootLines, case rootResult of Inl e \<Rightarrow> Some e | Inr r \<Rightarrow> None) (
                say [Blank, Rule, Blank]))))))))))))
          in (case snd rep of
                Some e \<Rightarrow> (fst rep, Panicked e)
              | None \<Rightarrow> (fst rep, Returned None)))"

section \<open>The command: \<^verbatim>\<open>main\<close>\<close>

text \<open>
  \<^verbatim>\<open>flag.Parse\<close> on the command line of a program that defines the one integer flag
  \<^verbatim>\<open>limit\<close>, as the standard library's \<^verbatim>\<open>parseOne\<close> proceeds: an argument that is shorter
  than two characters or does not start with a dash ends the flags, and so does \<^verbatim>\<open>--\<close>;
  \<^verbatim>\<open>-name\<close>, \<^verbatim>\<open>--name\<close>, \<^verbatim>\<open>-name=value\<close> and \<^verbatim>\<open>-name value\<close> are accepted; an undefined
  flag named \<^verbatim>\<open>help\<close> or \<^verbatim>\<open>h\<close> asks for the usage text, any other one is an error. The
  value of the flag is read by \<^verbatim>\<open>strconv.ParseInt(s, 0, 64)\<close>, a parameter of the model.
\<close>

datatype flag_result = Parsed int "string list" | HelpRequested | FlagFailure

fun parseFlags :: "(string \<Rightarrow> int option) \<Rightarrow> int \<Rightarrow> string list \<Rightarrow> flag_result" where
  "parseFlags parseInt limit [] = Parsed limit []"
| "parseFlags parseInt limit (s # rest) =
     (if length s < 2 \<or> s ! 0 \<noteq> CHR ''-'' then Parsed limit (s # rest)
      else if s = ''--'' then Parsed limit rest
      else
        let name0 = drop (if s ! 1 = CHR ''-'' then 2 else 1) s in
        if name0 = [] \<or> name0 ! 0 = CHR ''-'' \<or> name0 ! 0 = CHR ''='' then FlagFailure
        else
          let name = takeWhile (\<lambda>c. c \<noteq> CHR ''='') name0;
              hasValue = (CHR ''='' \<in> set name0);
              value = drop 1 (dropWhile (\<lambda>c. c \<noteq> CHR ''='') name0)
          in
            if name \<noteq> ''limit'' then
              (if name = ''help'' \<or> name = ''h'' then HelpRequested else FlagFailure)
            else if hasValue then
              (case parseInt value of
                 None \<Rightarrow> FlagFailure
               | Some v \<Rightarrow> parseFlags parseInt v rest)
            else
              (case rest of
                 [] \<Rightarrow> FlagFailure
               | value' # rest' \<Rightarrow>
                   (case parseInt value' of
                      None \<Rightarrow> FlagFailure
                    | Some v \<Rightarrow> parseFlags parseInt v rest')))"

text \<open>
  What a run leaves behind: the exit code, the standard error stream and the standard output
  stream. The error stream holds the usage text, the message of the flag package, one of
  the four one-line diagnostics of \<^verbatim>\<open>main\<close>, or the report that the Go run time prints
  for an unrecovered panic (the panic value followed by the goroutine traces), which ends
  the process with exit code 2.
\<close>

datatype diagnostic =
    Usage
  | FlagMessage
  | ErrorReadingFile
  | ErrorExtractingPKGDEF archive_error
  | ErrorExtractingUnifiedIR framing_error
  | ErrorDecodingFormat
  | PanicTrace

record process =
  exitCode :: nat
  stderr :: "diagnostic list"
  stdout :: "line list"

text \<open>
  The surroundings of a run: the file system as \<^verbatim>\<open>os.ReadFile\<close> sees it (\<open>None\<close> is a read
  error), the integer parser of the flag package, and the constants of the decoder package.
\<close>

record env =
  readFile :: "string \<Rightarrow> bytes option"
  parseInt :: "string \<Rightarrow> int option"
  pkgbits :: format

text \<open>
  \<^verbatim>\<open>main\<close>, the arguments being \<^verbatim>\<open>os.Args[1:]\<close>. The result is \<open>None\<close> when the run does not
  end. An unrecovered panic, in \<^verbatim>\<open>extractPKGDEF\<close> or in \<^verbatim>\<open>showDetailedFormat\<close>, ends the
  process with the run time's report and exit code 2. (The variant of \<^verbatim>\<open>main\<close> in the
  second copy of the program goes on to \<^verbatim>\<open>decodeWithGoTypes\<close>, a call into the external
  importer \<^verbatim>\<open>go/importer\<close>, after \<^verbatim>\<open>showDetailedFormat\<close> has returned; up to that point
  the two are the same.)
\<close>

definition main :: "env \<Rightarrow> string list \<Rightarrow> process option" where
  "main e args =
     (case parseFlags (parseInt e) 0 args of
        HelpRequested \<Rightarrow> Some \<lparr>exitCode = 0, stderr = [Usage], stdout = []\<rparr>
      | FlagFailure \<Rightarrow> Some \<lparr>exitCode = 2, stderr = [FlagMessage, Usage], stdout = []\<rparr>
      | Parsed limit rest \<Rightarrow>
          if length rest < 1 then Some \<lparr>exitCode = 1, stderr = [Usage], stdout = []\<rparr>
          else
            (case readFile e (rest ! 0) of
               None \<Rightarrow> Some \<lparr>exitCode = 1, stderr = [ErrorReadingFile], stdout = []\<rparr>
             | Some data \<Rightarrow>
                 (case extractPKGDEF data of
                    None \<Rightarrow> None
                  | Some (Inl SliceBoundsPanic) \<Rightarrow>
                      Some \<lparr>exitCode = 2, stderr = [PanicTrace], stdout = []\<rparr>
                  | Some (Inl err) \<Rightarrow>
                      Some \<lparr>exitCode = 1, stderr = [ErrorExtractingPKGDEF err], stdout = []\<rparr>
                  | Some (Inr pkgdefData) \<Rightarrow>
                      (case extractUnifiedIR pkgdefData of
                         Inl err \<Rightarrow>
                           Some \<lparr>exitCode = 1, stderr = [ErrorExtractingUnifiedIR err],
                                 stdout = []\<rparr>
                       | Inr uirData \<Rightarrow>
                           (case showDetailedFormat (pkgbits e) uirData limit of
                              (out, Panicked err) \<Rightarrow>
                                Some \<lparr>exitCode = 2, stderr = [PanicTrace], stdout = out\<rparr>
                            | (out, Returned (Some err)) \<Rightarrow>
                                Some \<lparr>exitCode = 1, stderr = [ErrorDecodingFormat],
                                      stdout = out\<rparr>
                            | (out, Returned None) \<Rightarrow>
                                Some \<lparr>exitCode = 0, stderr = [], stdout = out\<rparr>)))))"

text \<open>
  Test data for the command: a file system with four archives. \<^verbatim>\<open>good.a\<close> holds the sample
  payload; \<^verbatim>\<open>short.a\<close> frames a payload of three bytes, too short for the version field;
  \<^verbatim>\<open>negative.a\<close> declares the size \<^verbatim>\<open>-1\<close> for \<^verbatim>\<open>__.PKGDEF\<close>; \<^verbatim>\<open>text.a\<close> has a
  \<^verbatim>\<open>__.PKGDEF\<close> entry without the binary framing.
\<close>

definition pkgdefOf :: "bytes \<Rightarrow> bytes" where
  "pkgdefOf exportData = ''go object'' @ [CHR 0x0A] @ startMarker @ exportData @ endMarker"

definition archiveOf :: "bytes \<Rightarrow> bytes \<Rightarrow> bytes" where
  "archiveOf sz content = arMagic @ arHeader ''__.PKGDEF'' sz @ content"

definition goodExport :: bytes where
  "goodExport = ''u'' @ samplePayload"

definition goodArchive :: bytes where
  "goodArchive = archiveOf ''170'' (pkgdefOf goodExport)"

definition shortArchive :: bytes where
  "shortArchive = archiveOf ''23'' (pkgdefOf ''uabc'')"

definition negativeArchive :: bytes where
  "negativeArchive = archiveOf ''-1'' ''go object''"

definition textArchive :: bytes where
  "textArchive = archiveOf ''9'' ''go object''"

definition sampleFiles :: "string \<Rightarrow> bytes option" where
  "sampleFiles path =
     (if path = ''good.a'' then Some goodArchive
      else if path = ''short.a'' then Some shortArchive
      else if path = ''negative.a'' then Some negativeArchive
      else if path = ''text.a'' then Some textArchive
      else None)"

definition sampleParseInt :: "string \<Rightarrow> int option" where
  "sampleParseInt s = (if s \<noteq> [] \<and> list_all isDigit s then Some (decimal 0 s) else None)"

definition sampleEnv :: env where
  "sampleEnv = \<lparr>readFile = sampleFiles, parseInt = sampleParseInt, pkgbits = sampleFormat\<rparr>"

section \<open>Properties of the container extractor\<close>

lemma scanEntries_skip:
  "0 \<le> offset \<Longrightarrow> offset + 60 \<le> int (length data) \<Longrightarrow> entryName data offset \<noteq> ''__.PKGDEF'' \<Longrightarrow>
   scanEntries data offset = scanEntries data (nextOffset data offset)"
  by (subst scanEntries.simps) simp

lemma scanEntries_visits: "visits data offset \<Longrightarrow> scanEntries data offset = scanEntries data 8"
  by (induction rule: visits.induct) (simp_all add: scanEntries_skip)

lemma scanEntries_found:
  "0 \<le> offset \<Longrightarrow> offset + 60 \<le> int (length data) \<Longrightarrow> entryName data offset = ''__.PKGDEF'' \<Longrightarrow>
   scanEntries data offset =
     Some (if offset + 60 + entrySize data offset > int (length data) then Inl TruncatedArchive
           else if entrySize data offset < 0 then Inl SliceBoundsPanic
           else Inr (slice data (offset + 60) (offset + 60 + entrySize data offset)))"
  by (subst scanEntries.simps) simp

text \<open>
  A size field that is not a size: on a \<^verbatim>\<open>__.PKGDEF\<close> header whose size field parses to a
  negative number the bounds check passes and the slice expression panics.
\<close>

lemma extractPKGDEF_negative_size:
  assumes "prefix arMagic data" and "visits data offset"
    and "0 \<le> offset" and "offset + 60 \<le> int (length data)"
    and "entryName data offset = ''__.PKGDEF''" and "entrySize data offset < 0"
  shows "extractPKGDEF data = Some (Inl SliceBoundsPanic)"
  using assms scanEntries_visits [of data offset] scanEntries_found [of offset data]
  by (simp add: extractPKGDEF_def)

text \<open>
  Claim C5. Let the extractor reach a complete header named \<^verbatim>\<open>__.PKGDEF\<close> whose size field
  declares \<open>size \<ge> 0\<close> bytes. If the declared size fits in the bytes that remain after the
  header, the extractor returns exactly those \<open>size\<close> bytes that follow the 60-byte header;
  if it exceeds them, the extractor fails with the truncated-archive error and returns no
  short range.
\<close>

theorem extractPKGDEF_declared_range:
  assumes "prefix arMagic data" and "visits data offset"
    and "0 \<le> offset" and "offset + 60 \<le> int (length data)"
    and "entryName data offset = ''__.PKGDEF''" and "0 \<le> entrySize data offset"
  shows "(entrySize data offset \<le> int (length data) - (offset + 60) \<longrightarrow>
            extractPKGDEF data
              = Some (Inr (take (nat (entrySize data offset)) (drop (nat (offset + 60)) data)))
            \<and> int (length (take (nat (entrySize data offset)) (drop (nat (offset + 60)) data)))
              = entrySize data offset)
       \<and> (entrySize data offset > int (length data) - (offset + 60) \<longrightarrow>
            extractPKGDEF data = Some (Inl TruncatedArchive))"
proof -
  have "extractPKGDEF data = scanEntries data offset"
    using assms(1,2) by (simp add: extractPKGDEF_def scanEntries_visits)
  also have "\<dots> =
     Some (if offset + 60 + entrySize data offset > int (length data) then Inl TruncatedArchive
           else Inr (slice data (offset + 60) (offset + 60 + entrySize data offset)))"
    using assms(3-6) by (simp add: scanEntries_found)
  finally show ?thesis
    using assms(3,6) by (auto simp: slice_def)
qed

lemma sampleArchive_length: "length sampleArchive = 137"
  by (simp add: sampleArchive_def arMagic_def arHeader_def)

lemma sampleArchive_first: "entryName sampleArchive 8 = ''foo''" "nextOffset sampleArchive 8 = 72"
  by code_simp+

lemma sampleArchive_second:
  "entryName sampleArchive 72 = ''__.PKGDEF''" "entrySize sampleArchive 72 = 5"
  by code_simp+

lemma sampleArchive_visits: "visits sampleArchive 72"
  using visits_next [OF visits_first, of sampleArchive]
  by (simp add: sampleArchive_first sampleArchive_length)

lemma truncatedArchive_first:
  "entryName (butlast sampleArchive) 8 = ''foo''" "nextOffset (butlast sampleArchive) 8 = 72"
  by code_simp+

lemma truncatedArchive_second:
  "entryName (butlast sampleArchive) 72 = ''__.PKGDEF''" "entrySize (butlast sampleArchive) 72 = 5"
  by code_simp+

lemma truncatedArchive_visits: "visits (butlast sampleArchive) 72"
  using visits_next [OF visits_first, of "butlast sampleArchive"]
  by (simp add: truncatedArchive_first sampleArchive_length)

lemma sampleArchive_magic: "prefix arMagic sampleArchive" "prefix arMagic (butlast sampleArchive)"
  by code_simp+

lemma sampleArchive_range:
  "take 5 (drop 132 sampleArchive) = ''hello''"
  by code_simp

theorem extractPKGDEF_declared_range_witness:
  "extractPKGDEF sampleArchive = Some (Inr ''hello'')
   \<and> extractPKGDEF (butlast sampleArchive) = Some (Inl TruncatedArchive)"
  using extractPKGDEF_declared_range [OF sampleArchive_magic(1) sampleArchive_visits]
    extractPKGDEF_declared_range [OF sampleArchive_magic(2) truncatedArchive_visits]
  by (simp add: sampleArchive_second truncatedArchive_second sampleArchive_length
      sampleArchive_range)

text \<open>
  Where every size field parses to a non-negative number, each header moves the offset
  forward by at least 60 bytes, and the extractor returns.
\<close>

lemma nextOffset_advances: "0 \<le> entrySize data offset \<Longrightarrow> offset + 60 \<le> nextOffset data offset"
  by (simp add: nextOffset_def Let_def)

lemma scanEntries_returns:
  assumes sizes: "\<And>p. 0 \<le> entrySize data p"
  shows "0 \<le> offset \<Longrightarrow> \<exists>y. scanEntries data offset = Some y"
proof (induction "nat (int (length data) - offset)" arbitrary: offset rule: less_induct)
  case less
  show ?case
  proof (cases "offset + 60 \<le> int (length data) \<and> entryName data offset \<noteq> ''__.PKGDEF''")
    case True
    from nextOffset_advances [OF sizes] have adv: "offset + 60 \<le> nextOffset data offset" .
    with less.prems True have "nat (int (length data) - nextOffset data offset)
        < nat (int (length data) - offset)" and "0 \<le> nextOffset data offset"
      by linarith+
    from less.hyps [OF this] obtain y where "scanEntries data (nextOffset data offset) = Some y"
      by blast
    with True less.prems show ?thesis by (simp add: scanEntries_skip)
  next
    case False
    then show ?thesis by (subst scanEntries.simps) auto
  qed
qed

lemma extractPKGDEF_returns:
  assumes "\<And>p. 0 \<le> entrySize data p"
  shows "\<exists>y. extractPKGDEF data = Some y"
  using scanEntries_returns [OF assms, of 8] by (simp add: extractPKGDEF_def)

text \<open>
  A visited header that is not \<^verbatim>\<open>__.PKGDEF\<close> and whose successor offset is the header's own
  offset keeps the loop at that offset for ever.
\<close>

lemma scanEntries_stuck:
  assumes "0 \<le> offset" and "offset + 60 \<le> int (length data)"
    and "entryName data offset \<noteq> ''__.PKGDEF''" and "nextOffset data offset = offset"
  shows "scanEntries data offset = None"
proof -
  have step: "(d, p) \<noteq> (data, offset)"
    if ih: "\<And>d p y. scan d p = Some y \<Longrightarrow> (d, p) \<noteq> (data, offset)"
    and body: "(if \<not> p < int (length d) then Some (Inl PkgdefNotFound)
      else if p + 60 > int (length d) then Some (Inl PkgdefNotFound)
      else if p < 0 then Some (Inl SliceBoundsPanic)
      else if entryName d p = ''__.PKGDEF'' then
        (if p + 60 + entrySize d p > int (length d) then Some (Inl TruncatedArchive)
         else if entrySize d p < 0 then Some (Inl SliceBoundsPanic)
         else Some (Inr (slice d (p + 60) (p + 60 + entrySize d p))))
      else scan d (nextOffset d p)) = Some y"
    for scan d p and y :: "archive_error + bytes"
  proof
    assume "(d, p) = (data, offset)"
    with body assms have "scan data offset = Some y" by simp
    then have "(data, offset) \<noteq> (data, offset)" by (rule ih)
    then show False by simp
  qed
  have "(d, p) \<noteq> (data, offset)" if h: "scanEntries d p = Some y" for d p y
    by (rule scanEntries.raw_induct [where P = "\<lambda>d p y. (d, p) \<noteq> (data, offset)", OF step h])
  then show ?thesis by (cases "scanEntries data offset") auto
qed

lemma loopingArchive_length: "length loopingArchive = 68"
  by (simp add: loopingArchive_def arMagic_def arHeader_def)

lemma loopingArchive_entry:
  "entryName loopingArchive 8 = ''x''" "entrySize loopingArchive 8 = - 60"
  by code_simp+

text \<open>
  Claim C9 says that \<^verbatim>\<open>extractPKGDEF\<close> returns on every input, negative size fields
  included. On the 68-byte archive whose only header is named \<^verbatim>\<open>x\<close> and declares the size
  \<^verbatim>\<open>-60\<close>, the loop adds 60 and then \<open>-60\<close> to the offset and is back at offset 8: the call
  never returns.
\<close>

theorem extractPKGDEF_diverges: "extractPKGDEF loopingArchive = None"
proof -
  have "scanEntries loopingArchive 8 = None"
    by (rule scanEntries_stuck)
      (simp_all add: loopingArchive_length loopingArchive_entry nextOffset_def)
  moreover have "prefix arMagic loopingArchive"
    by (simp add: loopingArchive_def)
  ultimately show ?thesis by (simp add: extractPKGDEF_def)
qed

section \<open>Properties of the payload locator\<close>

lemma indexFrom_absent: "\<not> sublist sep s \<Longrightarrow> indexFrom s sep i = - 1"
  by (induction s arbitrary: i) (auto simp: sublist_Cons_right)

lemma prefix_append_long:
  "length sep \<le> length xs \<Longrightarrow> prefix sep (xs @ ys) \<longleftrightarrow> prefix sep xs"
  by (auto simp: prefix_append)

lemma firstOcc_Nil: "firstOcc sep []"
  by (simp add: firstOcc_def)

lemma firstOcc_Cons:
  "firstOcc sep (c # pre) \<longleftrightarrow> \<not> prefix sep (c # pre @ sep) \<and> firstOcc sep pre"
proof -
  have "(\<forall>m\<in>{0..<Suc n}. P m) \<longleftrightarrow> P 0 \<and> (\<forall>m\<in>{0..<n}. P (Suc m))" for P n
    by (auto simp: less_Suc_eq_0_disj)
  then show ?thesis by (simp add: firstOcc_def)
qed

lemma indexFrom_first:
  "firstOcc sep pre \<Longrightarrow> indexFrom (pre @ sep @ post) sep i = i + int (length pre)"
proof (induction pre arbitrary: i)
  case Nil
  have "prefix sep (sep @ post)" by simp
  then show ?case by (cases "sep @ post") auto
next
  case (Cons c pre)
  from Cons.prems have np: "\<not> prefix sep (c # pre @ sep)" and f: "firstOcc sep pre"
    by (simp_all add: firstOcc_Cons)
  have "\<not> prefix sep ((c # pre @ sep) @ post)"
    using np by (subst prefix_append_long) simp_all
  with Cons.IH [OF f] show ?case by simp
qed

lemma first_split:
  "sublist sep s \<Longrightarrow> \<exists>pre post. s = pre @ sep @ post \<and> firstOcc sep pre"
proof (induction s)
  case Nil
  then show ?case by (simp add: firstOcc_Nil)
next
  case (Cons c s)
  show ?case
  proof (cases "prefix sep (c # s)")
    case True
    then obtain post where "c # s = [] @ sep @ post" by (auto simp: prefix_def)
    then show ?thesis using firstOcc_Nil by blast
  next
    case False
    with Cons.prems have "sublist sep s" by (simp add: sublist_Cons_right)
    from Cons.IH [OF this] obtain pre post where s: "s = pre @ sep @ post" and f: "firstOcc sep pre"
      by blast
    have "\<not> prefix sep (c # pre @ sep)"
      using False s by (metis append_Cons append_assoc prefix_prefix)
    with f have "firstOcc sep (c # pre)" by (simp add: firstOcc_Cons)
    moreover have "c # s = (c # pre) @ sep @ post" using s by simp
    ultimately show ?thesis by blast
  qed
qed

lemma first_split_unique:
  assumes "pre @ sep @ post = pre' @ sep @ post'" "firstOcc sep pre" "firstOcc sep pre'"
  shows "pre = pre' \<and> post = post'"
proof -
  have "int (length pre) = int (length pre')"
    using indexFrom_first [OF assms(2), of post 0] indexFrom_first [OF assms(3), of post' 0] assms(1)
    by simp
  then show ?thesis using assms(1) by auto
qed

lemma Index_first: "firstOcc sep pre \<Longrightarrow> Index (pre @ sep @ post) sep = int (length pre)"
  by (simp add: Index_def indexFrom_first)

lemma Index_absent: "\<not> sublist sep s \<Longrightarrow> Index s sep = - 1"
  by (simp add: Index_def indexFrom_absent)

lemma length_startMarker: "length startMarker = 5" by (simp add: startMarker_def)

lemma extract_no_start: "\<not> sublist startMarker d \<Longrightarrow> extractUnifiedIR d = Inl NoStartMarker"
  by (simp add: extractUnifiedIR_def Index_absent)

lemma extract_no_end:
  "firstOcc startMarker pre \<Longrightarrow> \<not> sublist endMarker rest \<Longrightarrow>
   extractUnifiedIR (pre @ startMarker @ rest) = Inl NoEndMarker"
  by (simp add: extractUnifiedIR_def Index_first Index_absent length_startMarker Let_def nat_add_distrib)

lemma extract_block:
  assumes "firstOcc startMarker pre" and "firstOcc endMarker b"
  shows "extractUnifiedIR (pre @ startMarker @ b @ endMarker @ post)
     = (if b = [] \<or> hd b \<noteq> CHR ''u'' then Inl NotUnifiedIR else Inr b)"
proof -
  let ?d = "pre @ startMarker @ b @ endMarker @ post"
  have s: "Index ?d startMarker = int (length pre)"
    using assms(1) by (rule Index_first)
  have r: "drop (nat (int (length pre) + 5)) ?d = b @ endMarker @ post"
    by (simp add: nat_add_distrib length_startMarker)
  have e: "Index (b @ endMarker @ post) endMarker = int (length b)"
    using assms(2) by (rule Index_first)
  have x: "slice ?d (int (length pre) + 5) (int (length pre) + 5 + int (length b)) = b"
    unfolding slice_def r by simp
  have "b ! 0 = hd b" if "b \<noteq> []"
    using that by (simp add: hd_conv_nth)
  then show ?thesis
    unfolding extractUnifiedIR_def Let_def s r e x by auto
qed

lemma framing_cases:
  obtains (no_start) "\<not> sublist startMarker d"
  | (no_end) pre rest where "d = pre @ startMarker @ rest" "firstOcc startMarker pre" "\<not> sublist endMarker rest"
  | (block) pre b post where "d = pre @ startMarker @ b @ endMarker @ post" "firstOcc startMarker pre" "firstOcc endMarker b"
proof (cases "sublist startMarker d")
  case False
  then show ?thesis by (rule no_start)
next
  case True
  from first_split [OF this] obtain pre rest where d: "d = pre @ startMarker @ rest" "firstOcc startMarker pre"
    by blast
  show ?thesis
  proof (cases "sublist endMarker rest")
    case False
    with d show ?thesis by (rule no_end)
  next
    case True
    from first_split [OF this] obtain b post where "rest = b @ endMarker @ post" "firstOcc endMarker b"
      by blast
    with d show ?thesis by (auto intro: block)
  qed
qed

text \<open>
  Claim C6. \<^verbatim>\<open>extractUnifiedIR\<close> fails exactly when the start marker is absent, or no end
  marker follows the first start marker, or the block between the two is empty or does
  not start with the tag \<^verbatim>\<open>u\<close>; in every other case it returns the delimited block,
  tag byte included, unchanged.
\<close>

theorem extractUnifiedIR_framing:
  "((\<exists>e. extractUnifiedIR d = Inl e) \<longleftrightarrow>
      \<not> sublist startMarker d \<or> unterminated d
        \<or> (\<exists>b. delimits d b \<and> (b = [] \<or> hd b \<noteq> CHR ''u'')))
   \<and> (\<forall>b. extractUnifiedIR d = Inr b \<longleftrightarrow> delimits d b \<and> b \<noteq> [] \<and> hd b = CHR ''u'')"
proof -
  have A: "extractUnifiedIR d = Inl NoStartMarker" if "\<not> sublist startMarker d"
    using that by (rule extract_no_start)
  have B: "extractUnifiedIR d = Inl NoEndMarker" if "unterminated d"
    using that by (auto simp: unterminated_def extract_no_end)
  have C: "extractUnifiedIR d = (if b = [] \<or> hd b \<noteq> CHR ''u'' then Inl NotUnifiedIR else Inr b)"
    if "delimits d b" for b
  proof -
    from that obtain pre post where "d = pre @ startMarker @ b @ endMarker @ post"
      and "firstOcc startMarker pre" and "firstOcc endMarker b"
      unfolding delimits_def by blast
    then show ?thesis using extract_block [of pre b post] by simp
  qed
  have fail_iff: "(\<exists>e. extractUnifiedIR d = Inl e) \<longleftrightarrow>
      \<not> sublist startMarker d \<or> unterminated d
        \<or> (\<exists>b. delimits d b \<and> (b = [] \<or> hd b \<noteq> CHR ''u''))" (is "?L \<longleftrightarrow> ?R")
  proof
    assume ?L
    show ?R
    proof (cases d rule: framing_cases)
      case no_start
      then show ?thesis by simp
    next
      case (no_end pre rest)
      then have "unterminated d" by (auto simp: unterminated_def)
      then show ?thesis by simp
    next
      case (block pre b post)
      then have db: "delimits d b" by (auto simp: delimits_def)
      with \<open>?L\<close> C [OF db] have "b = [] \<or> hd b \<noteq> CHR ''u''" by (auto split: if_splits)
      with db show ?thesis by blast
    qed
  next
    assume ?R
    then show ?L using A B C by (auto split: if_splits)
  qed
  have ok_iff: "extractUnifiedIR d = Inr b \<longleftrightarrow> delimits d b \<and> b \<noteq> [] \<and> hd b = CHR ''u''" for b
  proof
    assume r: "extractUnifiedIR d = Inr b"
    show "delimits d b \<and> b \<noteq> [] \<and> hd b = CHR ''u''"
    proof (cases d rule: framing_cases)
      case no_start
      with A r show ?thesis by simp
    next
      case (no_end pre rest)
      then have "unterminated d" by (auto simp: unterminated_def)
      with B r show ?thesis by simp
    next
      case (block pre b' post)
      then have db: "delimits d b'" by (auto simp: delimits_def)
      with r C [OF db] have "b' = b \<and> b \<noteq> [] \<and> hd b = CHR ''u''" by (auto split: if_splits)
      with db show ?thesis by simp
    qed
  next
    assume "delimits d b \<and> b \<noteq> [] \<and> hd b = CHR ''u''"
    then show "extractUnifiedIR d = Inr b" using C [of b] by simp
  qed
  from fail_iff ok_iff show ?thesis by blast
qed

lemma samplePkgdef_delimits: "delimits samplePkgdef ''uDATA''"
proof -
  have "firstOcc startMarker (''go object'' @ [CHR 0x0A])" and "firstOcc endMarker ''uDATA''"
    by code_simp+
  moreover have "samplePkgdef = (''go object'' @ [CHR 0x0A]) @ startMarker @ ''uDATA'' @ endMarker @ []"
    by (simp add: samplePkgdef_def)
  ultimately show ?thesis unfolding delimits_def by blast
qed

lemma no_marker_in_header: "\<not> sublist startMarker ''go object''"
  by code_simp

theorem extractUnifiedIR_framing_witness:
  "extractUnifiedIR samplePkgdef = Inr ''uDATA'' \<and> (\<exists>e. extractUnifiedIR ''go object'' = Inl e)"
  using extractUnifiedIR_framing [of samplePkgdef] extractUnifiedIR_framing [of "''go object''"]
    samplePkgdef_delimits no_marker_in_header
  by simp

section \<open>Properties of the primitive codecs\<close>

lemma of_char_char_of_small: "n < 256 \<Longrightarrow> (of_char (char_of n) :: nat) = n"
  by simp

lemma uvarint_from_encode:
  "acc + u * 2 ^ shift < 2 ^ 64 \<Longrightarrow>
   uvarint_from shift acc (encode_uvarint u @ rest) = Inr (acc + u * 2 ^ shift, rest)"
proof (induction u arbitrary: acc shift rule: encode_uvarint.induct)
  case (1 u)
  show ?case
  proof (cases "u < 128")
    case True
    with 1(2) show ?thesis
      by (subst encode_uvarint.simps) (simp add: Let_def)
  next
    case False
    let ?v = "acc + (u mod 128) * 2 ^ shift"
    have gen: "acc + r * 2 ^ shift + q * 2 ^ (shift + 7) = acc + (r + 128 * q) * 2 ^ shift"
      for r q :: nat
      by (simp add: algebra_simps power_add)
    have eq: "?v + (u div 128) * 2 ^ (shift + 7) = acc + u * 2 ^ shift"
      using gen [of "u mod 128" "u div 128"] by simp
    have le: "?v \<le> acc + u * 2 ^ shift"
      using eq by linarith
    have small: "?v < 2 ^ 64" using le 1(2) by linarith
    have byte: "(of_char (char_of (u mod 128 + 128)) :: nat) = u mod 128 + 128"
      by (rule of_char_char_of_small) simp
    have ih: "uvarint_from (shift + 7) ?v (encode_uvarint (u div 128) @ rest)
       = Inr (?v + (u div 128) * 2 ^ (shift + 7), rest)"
      using False eq 1(2) by (intro 1(1)) simp_all
    have "uvarint_from shift acc (encode_uvarint u @ rest)
       = uvarint_from shift acc (char_of (u mod 128 + 128) # encode_uvarint (u div 128) @ rest)"
      using False by (subst encode_uvarint.simps) simp
    also have "\<dots> = uvarint_from (shift + 7) ?v (encode_uvarint (u div 128) @ rest)"
      using small by (simp add: Let_def byte)
    finally show ?thesis by (simp add: ih eq)
  qed
qed

lemma zigzag_inverse: "decode_zigzag (encode_zigzag n) = n"
proof (cases "n \<ge> 0")
  case True
  then have "encode_zigzag n = 2 * nat n" by (simp add: encode_zigzag_def)
  then show ?thesis using True by (simp add: decode_zigzag_def)
next
  case False
  then have "encode_zigzag n = 2 * nat (- n - 1) + 1" by (simp add: encode_zigzag_def)
  then show ?thesis using False by (simp add: decode_zigzag_def)
qed

lemma zigzag_range: "- (2 ^ 63) \<le> n \<Longrightarrow> n < 2 ^ 63 \<Longrightarrow> encode_zigzag n < 2 ^ 64"
  by (auto simp: encode_zigzag_def)

text \<open>
  Claim C1. For every unsigned \<open>u\<close> below \<open>2^64\<close>, decoding the unsigned-varint encoding
  of \<open>u\<close> yields \<open>u\<close> (and leaves the bytes after the encoding unread); for every signed
  \<open>n\<close> of the 64-bit range, the zig-zag mapping is undone by its inverse, and decoding the
  signed-varint encoding of \<open>n\<close> yields \<open>n\<close>.
\<close>

theorem varint_roundtrip:
  "(u < 2 ^ 64 \<longrightarrow> decode_uvarint (encode_uvarint u @ rest) = Inr (u, rest))
   \<and> (- (2 ^ 63) \<le> n \<and> n < 2 ^ 63 \<longrightarrow>
        decode_zigzag (encode_zigzag n) = n
        \<and> decode_varint (encode_varint n @ rest) = Inr (n, rest))"
  using uvarint_from_encode [of 0 u 0 rest] uvarint_from_encode [of 0 "encode_zigzag n" 0 rest]
    zigzag_range [of n]
  by (auto simp: decode_uvarint_def decode_varint_def encode_varint_def zigzag_inverse)

theorem varint_roundtrip_witness:
  "decode_uvarint (encode_uvarint 300 @ ''x'') = Inr (300, ''x'')
   \<and> decode_zigzag (encode_zigzag (- 3)) = - 3
   \<and> decode_varint (encode_varint (- 3) @ ''x'') = Inr (- 3, ''x'')"
  using varint_roundtrip [of 300 "''x''" "- 3"] by simp

section \<open>Properties of the envelope decoder\<close>

lemma read_u32s_length: "read_u32s n bs = Inr (vs, rest) \<Longrightarrow> length vs = n"
  by (induction n arbitrary: bs vs rest) (auto split: sum.splits prod.splits)

lemma largest_sorted: "sorted xs \<Longrightarrow> xs \<noteq> [] \<Longrightarrow> largest xs = last xs"
proof (induction xs)
  case Nil
  then show ?case by simp
next
  case (Cons x xs)
  show ?case
  proof (cases "xs = []")
    case True
    then show ?thesis by (simp add: largest_def)
  next
    case False
    with Cons have "largest xs = last xs" by simp
    moreover have "x \<le> last xs" using Cons.prems(1) False by simp
    ultimately show ?thesis using False by (simp add: largest_def)
  qed
qed

lemma NewPkgDecoder_tables:
  assumes "NewPkgDecoder fmt input = Inr pr"
  shows "length (elemEndsEnds pr) = 10" and "sorted (elemEndsEnds pr)"
    and "length (elemEnds pr) = largest (elemEndsEnds pr)"
  using assms
  by (auto simp: NewPkgDecoder_def split: sum.splits prod.splits if_splits
      dest: read_u32s_length)

lemma telescope10:
  fixes e :: "nat list"
  assumes "length e = 10"
  shows "int (e ! 0) + (int (e ! 1) - int (e ! 0)) + (int (e ! 2) - int (e ! 1))
     + (int (e ! 3) - int (e ! 2)) + (int (e ! 4) - int (e ! 3)) + (int (e ! 5) - int (e ! 4))
     + (int (e ! 6) - int (e ! 5)) + (int (e ! 7) - int (e ! 6)) + (int (e ! 8) - int (e ! 7))
     + (int (e ! 9) - int (e ! 8)) = int (last e)"
proof -
  have "e \<noteq> []" using assms by auto
  then have "last e = e ! 9" using assms by (simp add: last_conv_nth)
  then show ?thesis by simp
qed

text \<open>
  Claim C2. For every envelope decoder that \<^verbatim>\<open>NewPkgDecoder\<close> constructs successfully, the
  sum of \<^verbatim>\<open>NumElems\<close> over the ten sections equals \<^verbatim>\<open>TotalElems\<close>.
\<close>

theorem NumElems_sum:
  assumes "NewPkgDecoder fmt input = Inr pr"
  shows "(\<Sum>k \<leftarrow> allSections. NumElems pr k) = TotalElems pr"
proof -
  note t = NewPkgDecoder_tables [OF assms]
  have "elemEndsEnds pr \<noteq> []" using t(1) by auto
  with t have total: "TotalElems pr = int (last (elemEndsEnds pr))"
    by (simp add: TotalElems_def largest_sorted)
  have "(\<Sum>k \<leftarrow> allSections. NumElems pr k) = int (last (elemEndsEnds pr))"
    using telescope10 [OF t(1)]
    by (simp add: allSections_def NumElems_def sectionStart_def)
  with total show ?thesis by simp
qed

lemma read_u32_Cons4: "read_u32 (a # b # c # d # rest) = Inr (le32 [a, b, c, d], rest)"
  by (simp add: read_u32_def)

lemma read_u32s_step:
  "read_u32s n (a # b # c # d # rest) =
     (if n = 0 then Inr ([], a # b # c # d # rest)
      else case read_u32s (n - 1) rest of
             Inl e \<Rightarrow> Inl e
           | Inr (vs, rest') \<Rightarrow> Inr (le32 [a, b, c, d] # vs, rest'))"
  by (cases n) (simp_all add: read_u32_Cons4)

lemma read_u32s_zero: "read_u32s 0 bs = Inr ([], bs)"
  by simp

lemma sampleDecoder_built: "NewPkgDecoder sampleFormat samplePayload = Inr sampleDecoder"
  unfolding NewPkgDecoder_def samplePayload_def sampleHeader_def sampleData_def sampleFormat_def
      sampleDecoder_def
  by (simp add: read_u32_Cons4 read_u32s_step le32_def largest_def del: read_u32s.simps)

theorem NumElems_sum_witness:
  "NewPkgDecoder sampleFormat samplePayload = Inr sampleDecoder
   \<and> (\<Sum>k \<leftarrow> allSections. NumElems sampleDecoder k) = 11"
  using NumElems_sum [OF sampleDecoder_built] sampleDecoder_built
  by (simp add: TotalElems_def sampleDecoder_def)

section \<open>Properties of the element cursor\<close>

lemma Reloc_next:
  assumes "RelocNext r < length (Relocs r)"
  shows "Reloc k r =
     (if fst (Relocs r ! RelocNext r) \<noteq> sectionIndex k then Inl SectionMismatchError
      else Inr (snd (Relocs r ! RelocNext r), r\<lparr>RelocNext := RelocNext r + 1\<rparr>))"
  using assms by (simp add: Reloc_def split: prod.splits)

lemma Reloc_Inr:
  assumes "Reloc k r = Inr (idx, r1)"
  shows "RelocNext r < length (Relocs r)" and "Relocs r ! RelocNext r = (sectionIndex k, idx)"
    and "r1 = r\<lparr>RelocNext := RelocNext r + 1\<rparr>"
  using assms by (auto simp: Reloc_def split: if_splits prod.splits)

lemma relocAll_order:
  "relocAll ks r = Inr (idxs, r') \<Longrightarrow>
   zip (map sectionIndex ks) idxs = take (length ks) (drop (RelocNext r) (Relocs r))
   \<and> length idxs = length ks \<and> r' = r\<lparr>RelocNext := RelocNext r + length ks\<rparr>"
proof (induction ks arbitrary: r idxs r')
  case Nil
  then show ?case by simp
next
  case (Cons k ks)
  from Cons.prems obtain idx r1 idxs' where
    a: "Reloc k r = Inr (idx, r1)" and b: "relocAll ks r1 = Inr (idxs', r')" and c: "idxs = idx # idxs'"
    by (auto split: sum.splits prod.splits)
  note h = Reloc_Inr [OF a]
  from Cons.IH [OF b] h(3) have
    ih: "zip (map sectionIndex ks) idxs' = take (length ks) (drop (Suc (RelocNext r)) (Relocs r))"
      "length idxs' = length ks" "r' = r\<lparr>RelocNext := RelocNext r + Suc (length ks)\<rparr>"
    by simp_all
  have "drop (RelocNext r) (Relocs r) = (sectionIndex k, idx) # drop (Suc (RelocNext r)) (Relocs r)"
    using h(1,2) by (metis Cons_nth_drop_Suc)
  with ih c show ?case by simp
qed

text \<open>
  Claim C3. On a cursor whose reference table has an unconsumed entry, \<^verbatim>\<open>Reloc(s)\<close> fails
  with the section-mismatch error when the next entry records a section other than \<open>s\<close>,
  and otherwise returns the index that entry records and consumes exactly that entry.
  Consecutive successful \<^verbatim>\<open>Reloc\<close> calls therefore return the entries in the order of the
  table, starting at the first unconsumed one.
\<close>

theorem Reloc_discipline:
  "(RelocNext r < length (Relocs r) \<longrightarrow>
      (fst (Relocs r ! RelocNext r) \<noteq> sectionIndex k \<longrightarrow> Reloc k r = Inl SectionMismatchError)
      \<and> (fst (Relocs r ! RelocNext r) = sectionIndex k \<longrightarrow>
            Reloc k r = Inr (snd (Relocs r ! RelocNext r), r\<lparr>RelocNext := RelocNext r + 1\<rparr>)))
   \<and> (relocAll ks r = Inr (idxs, r') \<longrightarrow>
        zip (map sectionIndex ks) idxs = take (length ks) (drop (RelocNext r) (Relocs r))
        \<and> length idxs = length ks \<and> r' = r\<lparr>RelocNext := RelocNext r + length ks\<rparr>)"
  using Reloc_next [of r k] relocAll_order [of ks r idxs r'] by simp

lemma decode_uvarint_small:
  "of_char c < (128 :: nat) \<Longrightarrow> decode_uvarint (c # rest) = Inr (of_char c, rest)"
  by (simp add: decode_uvarint_def Let_def)

lemma sampleCursor_built: "NewDecoder sampleDecoder SectionMeta 1 (SyncPrivate sampleFormat) = Inr sampleCursor"
  by (simp add: NewDecoder_def ElementRange_def NumElems_def sectionStart_def sampleDecoder_def
      sampleData_def decode_uvarint_small sampleCursor_def Sync_def numeral_2_eq_2)

theorem Reloc_discipline_witness:
  "Reloc SectionObj sampleCursor = Inl SectionMismatchError
   \<and> Reloc SectionBody sampleCursor = Inr (0, sampleCursor\<lparr>RelocNext := 1\<rparr>)
   \<and> relocAll [SectionBody, SectionBody] sampleCursor = Inr ([0, 1], sampleCursor\<lparr>RelocNext := 2\<rparr>)"
proof -
  have r: "relocAll [SectionBody, SectionBody] sampleCursor = Inr ([0, 1], sampleCursor\<lparr>RelocNext := 2\<rparr>)"
    by (simp add: Reloc_def sampleCursor_def)
  show ?thesis
    using Reloc_discipline [of sampleCursor SectionObj "[]" "[]" sampleCursor]
      Reloc_discipline [of sampleCursor SectionBody "[SectionBody, SectionBody]" "[0, 1]"
        "sampleCursor\<lparr>RelocNext := 2\<rparr>"] r
    by (simp add: sampleCursor_def)
qed

text \<open>
  The peek agrees with a full decode: the tag it reports is the first field that a fresh
  cursor on the same object reads.
\<close>

lemma skip_read_relocs:
  "skip_uvarints (2 * n) bs =
     (case read_relocs n bs of Inl e \<Rightarrow> Inl e | Inr (tab, rest) \<Rightarrow> Inr rest)"
  by (induction n arbitrary: bs) (auto split: sum.splits prod.splits)

lemma Uint64_Relocs:
  "Uint64 (r\<lparr>Relocs := t\<rparr>) =
     (case Uint64 r of Inl e \<Rightarrow> Inl e | Inr (v, r') \<Rightarrow> Inr (v, r'\<lparr>Relocs := t\<rparr>))"
  by (simp add: Uint64_def split: sum.splits prod.splits)

lemma Sync_Relocs:
  "Sync m (r\<lparr>Relocs := t\<rparr>) =
     (case Sync m r of Inl e \<Rightarrow> Inl e | Inr r' \<Rightarrow> Inr (r'\<lparr>Relocs := t\<rparr>))"
  by (simp add: Sync_def Uint64_Relocs split: sum.splits prod.splits)

lemma peekTag_full_decode:
  "peekTag fmt pr idx = fst (decodeElement SectionObj idx (SyncObject1 fmt) Uint64 pr)"
proof (cases "ElementRange pr SectionObj idx")
  case (Inl e)
  then show ?thesis by (simp add: peekTag_def decodeElement_def NewDecoder_def)
next
  case elem: (Inr elem)
  show ?thesis
  proof (cases "decode_uvarint elem")
    case (Inl e)
    with elem show ?thesis by (simp add: peekTag_def decodeElement_def NewDecoder_def)
  next
    case (Inr p)
    then obtain n r1 where len: "decode_uvarint elem = Inr (n, r1)" by (cases p) simp
    show ?thesis
    proof (cases "read_relocs n r1")
      case (Inl e)
      with elem len show ?thesis
        by (simp add: peekTag_def decodeElement_def NewDecoder_def skip_read_relocs)
    next
      case (Inr q)
      then obtain tab r2 where tab: "read_relocs n r1 = Inr (tab, r2)" by (cases q) simp
      define base where "base = \<lparr>Data = r2, Relocs = [], RelocNext = 0, SyncOn = syncMarkers pr\<rparr>"
      have full: "\<lparr>Data = r2, Relocs = tab, RelocNext = 0, SyncOn = syncMarkers pr\<rparr>
          = base\<lparr>Relocs := tab\<rparr>"
        by (simp add: base_def)
      have peek: "peekTag fmt pr idx =
          (case Sync (SyncObject1 fmt) base of
             Inl e \<Rightarrow> Inl e
           | Inr r3 \<Rightarrow> (case Uint64 r3 of Inl e \<Rightarrow> Inl e | Inr (tag, r4) \<Rightarrow> Inr tag))"
        using elem len tab by (simp add: peekTag_def skip_read_relocs base_def)
      have dec: "fst (decodeElement SectionObj idx (SyncObject1 fmt) Uint64 pr) =
          (case Sync (SyncObject1 fmt) (base\<lparr>Relocs := tab\<rparr>) of
             Inl e \<Rightarrow> Inl e
           | Inr r3 \<Rightarrow> (case Uint64 r3 of Inl e \<Rightarrow> Inl e | Inr (tag, r4) \<Rightarrow> Inr tag))"
        using elem len tab by (simp add: decodeElement_def NewDecoder_def full [symmetric])
      show ?thesis
        unfolding peek dec Sync_Relocs
        by (cases "Sync (SyncObject1 fmt) base")
          (simp_all add: Uint64_Relocs split: sum.splits prod.splits)
    qed
  qed
qed

lemma samplePeek: "peekTag sampleFormat sampleDecoder 0 = Inr 3"
  by (simp add: peekTag_def ElementRange_def NumElems_def sectionStart_def sampleDecoder_def
      sampleData_def decode_uvarint_small Sync_def Uint64_def sampleFormat_def)

section \<open>Properties of the report\<close>

subsection \<open>The private root and the limit\<close>

lemma Uint64_table:
  "Uint64 r = Inr (v, r1) \<Longrightarrow> Relocs r1 = Relocs r \<and> RelocNext r1 = RelocNext r"
  by (auto simp: Uint64_def split: sum.splits prod.splits)

lemma String_table:
  "String r = Inr (s, r1) \<Longrightarrow> Relocs r1 = Relocs r \<and> RelocNext r1 = RelocNext r"
  by (auto simp: String_def split: sum.splits prod.splits if_splits dest: Uint64_table)

lemma bodyLoop_cursor: "snd (bodyLoop m1 idxs r) = snd (bodyLoop m2 idxs r)"
proof (induction idxs arbitrary: r)
  case Nil
  show ?case by simp
next
  case (Cons i idxs)
  show ?case
    using Cons.IH
    by (auto split: sum.splits prod.splits simp: split_beta)
qed

lemma bodyLoop_relocs:
  "bodyLoop m idxs r = (out, Inr r') \<Longrightarrow> RelocNext r' = RelocNext r + length idxs"
proof (induction idxs arbitrary: r out)
  case Nil
  then show ?case by simp
next
  case (Cons i idxs)
  from Cons.prems obtain pkgPath r1 symName r2 bodyIdx r3 ls where
    s1: "String r = Inr (pkgPath, r1)" and s2: "String r1 = Inr (symName, r2)"
    and rl: "Reloc SectionBody r2 = Inr (bodyIdx, r3)" and rest: "bodyLoop m idxs r3 = (ls, Inr r')"
    by (auto split: sum.splits prod.splits)
  from Cons.IH [OF rest] have "RelocNext r' = RelocNext r3 + length idxs" .
  moreover have "RelocNext r3 = RelocNext r2 + 1" using Reloc_Inr(3) [OF rl] by simp
  moreover have "RelocNext r2 = RelocNext r" using String_table [OF s1] String_table [OF s2] by simp
  ultimately show ?case by simp
qed

lemma privateRoot_cursor:
  "snd (privateRoot fmt decoder limit1) = snd (privateRoot fmt decoder limit2)"
proof (cases "NewDecoder decoder SectionMeta PrivateRootIdx (SyncPrivate fmt)")
  case (Inl e)
  then show ?thesis by (simp add: privateRoot_def)
next
  case r: (Inr r)
  show ?thesis
  proof (cases "Bool r")
    case (Inl e)
    with r show ?thesis by (simp add: privateRoot_def)
  next
    case (Inr p)
    then obtain hasInittask r1 where b: "Bool r = Inr (hasInittask, r1)" by (cases p) simp
    show ?thesis
    proof (cases "Len r1")
      case (Inl e)
      with r b show ?thesis by (simp add: privateRoot_def)
    next
      case (Inr q)
      then obtain bodyCount r2 where n: "Len r1 = Inr (bodyCount, r2)" by (cases q) simp
      define after where "after res = (case res of Inl e \<Rightarrow> Inl e | Inr r3 \<Rightarrow> Sync (SyncEOF fmt) r3)"
        for res :: "decode_error + Decoder"
      have loop: "snd (case bodyLoop m idxs r2 of
                     (ls, Inl e) \<Rightarrow> (f ls, Inl e)
                   | (ls, Inr r3) \<Rightarrow> (g ls, Sync (SyncEOF fmt) r3))
          = after (snd (bodyLoop m idxs r2))"
        for m idxs and f g :: "line list \<Rightarrow> line list"
        by (cases "bodyLoop m idxs r2") (auto simp: after_def split: sum.splits)
      have form: "snd (privateRoot fmt decoder limit) =
          (if bodyCount > 0
           then after (snd (bodyLoop (if limit > 0 \<and> limit < bodyCount then limit else bodyCount)
                              [0..<nat bodyCount] r2))
           else Sync (SyncEOF fmt) r2)" for limit
        unfolding privateRoot_def Let_def r b n sum.case prod.case
        by (simp only: loop split: if_splits) simp
      show ?thesis
        unfolding form
        using bodyLoop_cursor [of "if limit1 > 0 \<and> limit1 < bodyCount then limit1 else bodyCount"
            "[0..<nat bodyCount]" r2 "if limit2 > 0 \<and> limit2 < bodyCount then limit2 else bodyCount"]
        by simp
    qed
  qed
qed

text \<open>
  Claim C10. In the private-root listing the limit decides which lines are printed and
  nothing else: for any two limits the reads leave the cursor in the same state, or stop at
  the same error. The loop over the bodies reads all its triples whatever \<open>maxShow\<close> is,
  and a loop that completes has consumed one reference-table entry for each of them before
  \<^verbatim>\<open>Sync(EOF)\<close> runs.
\<close>

theorem privateRoot_limit_independent:
  "snd (privateRoot fmt decoder limit1) = snd (privateRoot fmt decoder limit2)
   \<and> snd (bodyLoop maxShow1 idxs r) = snd (bodyLoop maxShow2 idxs r)
   \<and> (bodyLoop maxShow1 idxs r = (out, Inr r') \<longrightarrow> RelocNext r' = RelocNext r + length idxs)"
  using privateRoot_cursor [of fmt decoder limit1 limit2] bodyLoop_cursor [of maxShow1 idxs r maxShow2]
    bodyLoop_relocs [of maxShow1 idxs r out r']
  by simp

lemma upt_0_2: "[0..<2] = [0, 1]"
  by (simp add: numeral_2_eq_2)

lemma sample_privateRoot_limit1:
  "privateRoot sampleFormat sampleDecoder 1 =
     ([HasInittask False, FunctionBodies 2, Blank, BodyEntry 0 ''p'' ''f'' 0, Trailer 1],
      Inr \<lparr>Data = [], Relocs = [(9, 0), (9, 1)], RelocNext = 2, SyncOn = False\<rparr>)"
  using sampleCursor_built
  by (simp add: privateRoot_def PrivateRootIdx_def sampleCursor_def Bool_def Len_def Uint64_def
      String_def Reloc_def Sync_def decode_uvarint_small upt_0_2)

lemma sample_privateRoot_limit0:
  "privateRoot sampleFormat sampleDecoder 0 =
     ([HasInittask False, FunctionBodies 2, Blank, BodyEntry 0 ''p'' ''f'' 0,
       BodyEntry 1 ''q'' ''g'' 1],
      Inr \<lparr>Data = [], Relocs = [(9, 0), (9, 1)], RelocNext = 2, SyncOn = False\<rparr>)"
  using sampleCursor_built
  by (simp add: privateRoot_def PrivateRootIdx_def sampleCursor_def Bool_def Len_def Uint64_def
      String_def Reloc_def Sync_def decode_uvarint_small upt_0_2)

theorem privateRoot_limit_independent_witness:
  "snd (privateRoot sampleFormat sampleDecoder 1) = snd (privateRoot sampleFormat sampleDecoder 0)
   \<and> snd (privateRoot sampleFormat sampleDecoder 1)
       = Inr \<lparr>Data = [], Relocs = [(9, 0), (9, 1)], RelocNext = 2, SyncOn = False\<rparr>
   \<and> bodyLoop 1 [0, 1] (sampleCursor\<lparr>Data := drop 2 (Data sampleCursor)\<rparr>)
       = ([BodyEntry 0 ''p'' ''f'' 0],
          Inr \<lparr>Data = [], Relocs = [(9, 0), (9, 1)], RelocNext = 2, SyncOn = False\<rparr>)"
proof -
  have loop: "bodyLoop 1 [0, 1] (sampleCursor\<lparr>Data := drop 2 (Data sampleCursor)\<rparr>)
       = ([BodyEntry 0 ''p'' ''f'' 0],
          Inr \<lparr>Data = [], Relocs = [(9, 0), (9, 1)], RelocNext = 2, SyncOn = False\<rparr>)"
    by (simp add: sampleCursor_def Uint64_def String_def Reloc_def decode_uvarint_small)
  show ?thesis
    using privateRoot_limit_independent [of sampleFormat sampleDecoder 1 0 1 "[0, 1]"
        "sampleCursor\<lparr>Data := drop 2 (Data sampleCursor)\<rparr>" 1 "[BodyEntry 0 ''p'' ''f'' 0]"
        "\<lparr>Data = [], Relocs = [(9, 0), (9, 1)], RelocNext = 2, SyncOn = False\<rparr>"] loop
    by (simp add: sample_privateRoot_limit1)
qed

subsection \<open>The limit in the listings\<close>

lemma andThen_say: "andThen (say a) b = (a @ fst b, snd b)"
  by (simp add: andThen_def say_def)

lemma andThen_ok:
  "andThen a b = (out, None) \<Longrightarrow> \<exists>o1 o2. a = (o1, None) \<and> b = (o2, None) \<and> out = o1 @ o2"
  by (cases a; cases b) (auto simp: andThen_def split: option.splits)

lemma stringLoop_ok:
  "stringLoop d idxs = (out, None) \<Longrightarrow> length out = length idxs \<and> list_all isEntry out"
proof (induction idxs arbitrary: out)
  case Nil
  then show ?case by (simp add: say_def)
next
  case (Cons i idxs)
  show ?case
  proof (cases "StringIdx d i")
    case (Inl e)
    with Cons.prems show ?thesis by (simp add: panic_def)
  next
    case (Inr str)
    with Cons.prems obtain o2 where "stringLoop d idxs = (o2, None)"
      and "out = StringEntry i (escape (shorten str)) # o2"
      by (auto simp: andThen_say) (metis prod.collapse)
    with Cons.IH [of o2] show ?thesis by simp
  qed
qed

lemma posBaseLoop_ok:
  "posBaseLoop fmt d idxs = (out, None) \<Longrightarrow> length out = length idxs \<and> list_all isEntry out"
proof (induction idxs arbitrary: out)
  case Nil
  then show ?case by (simp add: say_def)
next
  case (Cons i idxs)
  from Cons.prems obtain r filename r1 isFileBase r2 where
    "andThen (say [PosBaseEntry i filename isFileBase]) (posBaseLoop fmt d idxs) = (out, None)"
    by (auto simp: panic_def split: sum.splits prod.splits)
  then obtain o2 where "posBaseLoop fmt d idxs = (o2, None)"
    and "out = PosBaseEntry i filename isFileBase # o2"
    by (auto simp: andThen_say) (metis prod.collapse)
  with Cons.IH [of o2] show ?case by simp
qed

lemma isEntry_pkgEntry: "isEntry (pkgEntry fmt d i)"
  by (simp add: pkgEntry_def split: sum.splits prod.splits)

lemma bodyLoop_lines:
  "bodyLoop m idxs r = (out, res) \<Longrightarrow>
   list_all isEntry out
   \<and> (\<forall>r'. res = Inr r' \<longrightarrow> length out = length (filter (\<lambda>i. int i < m) idxs))"
proof (induction idxs arbitrary: r out res)
  case Nil
  then show ?case by auto
next
  case (Cons i idxs)
  show ?case
  proof (cases "\<exists>p r1 s r2 b r3. String r = Inr (p, r1) \<and> String r1 = Inr (s, r2)
                  \<and> Reloc SectionBody r2 = Inr (b, r3)")
    case False
    with Cons.prems have "out = [] \<and> (\<exists>e. res = Inl e)"
      by (auto split: sum.splits prod.splits)
    then show ?thesis by auto
  next
    case True
    then obtain p r1 s r2 b r3 where reads: "String r = Inr (p, r1)" "String r1 = Inr (s, r2)"
      "Reloc SectionBody r2 = Inr (b, r3)" by blast
    obtain ls res' where rest: "bodyLoop m idxs r3 = (ls, res')" by (cases "bodyLoop m idxs r3")
    with Cons.prems reads have out: "out = (if int i < m then [BodyEntry i p s b] else []) @ ls"
      and res: "res = res'" by simp_all
    from Cons.IH [OF rest] out res show ?thesis by auto
  qed
qed

lemma count_below: "0 \<le> m \<Longrightarrow> length (filter (\<lambda>i. int i < m) [0..<n]) = min n (nat m)"
  by (induction n) auto

lemma listedI:
  "out = pre @ es @ (case tr of None \<Rightarrow> [] | Some k \<Rightarrow> [Trailer k]) \<Longrightarrow> length es = n \<Longrightarrow>
   list_all isEntry es \<Longrightarrow> list_all (\<lambda>l. \<not> isEntry l \<and> \<not> isTrailer l) pre \<Longrightarrow> listed out n tr"
  unfolding listed_def by blast

lemma table_listed:
  assumes run: "andThen (say hdr) (andThen loop (say tr)) = (out, None)"
    and loop: "\<And>es. loop = (es, None) \<Longrightarrow> length es = n \<and> list_all isEntry es"
    and hdr: "list_all (\<lambda>l. \<not> isEntry l \<and> \<not> isTrailer l) hdr"
    and tr: "tr = (case t of None \<Rightarrow> [] | Some k \<Rightarrow> [Trailer k])"
  shows "listed out n t"
proof -
  from andThen_ok [OF run] obtain o2 where
    inner: "andThen loop (say tr) = (o2, None)" and out: "out = hdr @ o2"
    by (auto simp: say_def)
  from andThen_ok [OF inner] obtain es where l: "loop = (es, None)" and o2: "o2 = es @ tr"
    by (auto simp: say_def)
  from loop [OF l] out o2 hdr tr show ?thesis
    by (intro listedI [where pre = hdr and es = es]) simp_all
qed

lemma empty_listed:
  assumes "list_all (\<lambda>l. \<not> isEntry l \<and> \<not> isTrailer l) out"
  shows "listed out 0 None"
  using assms by (intro listedI [where pre = out and es = "[]"]) simp_all

lemma stringTable_listed:
  assumes run: "stringTable d limit = (out, None)" and c: "c = NumElems d SectionString"
  shows "(0 < limit \<and> limit < c \<longrightarrow> listed out (nat limit) (Some (c - limit)))
       \<and> (limit = 0 \<longrightarrow> listed out (nat c) None)"
proof (cases "c > 0")
  case False
  with run c have "out = [EmptyLine]" by (simp add: stringTable_def say_def)
  then have "listed out 0 None" by (intro empty_listed) simp
  with False show ?thesis by auto
next
  case True
  show ?thesis
  proof (intro conjI impI)
    assume lim: "0 < limit \<and> limit < c"
    with run True c have
      "andThen (say [TotalStrings c, ShowingFirst limit, Blank])
         (andThen (stringLoop d [0..<nat limit]) (say [Trailer (c - limit)])) = (out, None)"
      by (simp add: stringTable_def Let_def)
    then show "listed out (nat limit) (Some (c - limit))"
      by (rule table_listed) (use stringLoop_ok in auto)
  next
    assume lim: "limit = 0"
    with run True c have
      "andThen (say [TotalStrings c, Blank]) (andThen (stringLoop d [0..<nat c]) (say [])) = (out, None)"
      by (simp add: stringTable_def Let_def)
    then show "listed out (nat c) None"
      by (rule table_listed) (use stringLoop_ok in auto)
  qed
qed

lemma posBaseTable_listed:
  assumes run: "posBaseTable fmt d limit = (out, None)" and c: "c = NumElems d SectionPosBase"
  shows "(0 < limit \<and> limit < c \<longrightarrow> listed out (nat limit) (Some (c - limit)))
       \<and> (limit = 0 \<longrightarrow> listed out (nat c) None)"
proof (cases "c > 0")
  case False
  with run c have "out = [NoneLine]" by (simp add: posBaseTable_def say_def)
  then have "listed out 0 None" by (intro empty_listed) simp
  with False show ?thesis by auto
next
  case True
  show ?thesis
  proof (intro conjI impI)
    assume lim: "0 < limit \<and> limit < c"
    with run True c have
      "andThen (say []) (andThen (posBaseLoop fmt d [0..<nat limit]) (say [Trailer (c - limit)]))
         = (out, None)"
      by (simp add: posBaseTable_def Let_def andThen_say)
    then show "listed out (nat limit) (Some (c - limit))"
      by (rule table_listed) (use posBaseLoop_ok in auto)
  next
    assume lim: "limit = 0"
    with run True c have
      "andThen (say []) (andThen (posBaseLoop fmt d [0..<nat c]) (say [])) = (out, None)"
      by (simp add: posBaseTable_def Let_def andThen_say)
    then show "listed out (nat c) None"
      by (rule table_listed) (use posBaseLoop_ok in auto)
  qed
qed

lemma pkgTable_listed:
  assumes run: "pkgTable fmt d limit = (out, None)" and c: "c = NumElems d SectionPkg"
  shows "(0 < limit \<and> limit < c \<longrightarrow> listed out (nat limit) (Some (c - limit)))
       \<and> (limit = 0 \<longrightarrow> listed out (nat c) None)"
proof (cases "c > 0")
  case False
  with run c have "out = [NoneLine]" by (simp add: pkgTable_def say_def)
  then have "listed out 0 None" by (intro empty_listed) simp
  with False show ?thesis by auto
next
  case True
  have entries: "say (map (pkgEntry fmt d) [0..<n]) = (es, None) \<Longrightarrow>
      length es = n \<and> list_all isEntry es" for n es
    by (auto simp: say_def list_all_iff isEntry_pkgEntry)
  show ?thesis
  proof (intro conjI impI)
    assume lim: "0 < limit \<and> limit < c"
    with run True c have
      "andThen (say []) (andThen (say (map (pkgEntry fmt d) [0..<nat limit]))
         (say [Trailer (c - limit)])) = (out, None)"
      by (simp add: pkgTable_def Let_def andThen_say)
    then show "listed out (nat limit) (Some (c - limit))"
      by (rule table_listed) (use entries in auto)
  next
    assume lim: "limit = 0"
    with run True c have
      "andThen (say []) (andThen (say (map (pkgEntry fmt d) [0..<nat c])) (say [])) = (out, None)"
      by (simp add: pkgTable_def Let_def andThen_say)
    then show "listed out (nat c) None"
      by (rule table_listed) (use entries in auto)
  qed
qed

lemma privateRoot_listed:
  assumes run: "privateRoot fmt d limit = (out, Inr r')" and c: "FunctionBodies c \<in> set out"
  shows "(0 < limit \<and> limit < c \<longrightarrow> listed out (nat limit) (Some (c - limit)))
       \<and> (limit = 0 \<longrightarrow> listed out (nat c) None)"
proof -
  from run obtain r hasInittask r1 bodyCount r2 where
    r: "NewDecoder d SectionMeta PrivateRootIdx (SyncPrivate fmt) = Inr r"
    and b: "Bool r = Inr (hasInittask, r1)" and n: "Len r1 = Inr (bodyCount, r2)"
    by (auto simp: privateRoot_def split: sum.splits prod.splits)
  define hdr where "hdr = [HasInittask hasInittask, FunctionBodies bodyCount]"
  have hdr: "list_all (\<lambda>l. \<not> isEntry l \<and> \<not> isTrailer l) (hdr @ [Blank])"
    "list_all (\<lambda>l. \<not> isEntry l \<and> \<not> isTrailer l) hdr"
    by (simp_all add: hdr_def)
  show ?thesis
  proof (cases "bodyCount > 0")
    case False
    with run r b n have out: "out = hdr" by (simp add: privateRoot_def hdr_def)
    with c have "c = bodyCount" by (simp add: hdr_def)
    moreover have "listed out 0 None" using out hdr(2) by (intro empty_listed) simp
    ultimately show ?thesis using False by auto
  next
    case True
    define maxShow where "maxShow = (if limit > 0 \<and> limit < bodyCount then limit else bodyCount)"
    obtain ls res where loop: "bodyLoop maxShow [0..<nat bodyCount] r2 = (ls, res)"
      by (cases "bodyLoop maxShow [0..<nat bodyCount] r2")
    from run r b n True loop obtain r3 where res: "res = Inr r3"
      and out: "out = hdr @ [Blank] @ ls
          @ (if maxShow < bodyCount then [Trailer (bodyCount - maxShow)] else [])"
      by (cases res) (auto simp: privateRoot_def Let_def maxShow_def hdr_def)
    from bodyLoop_lines [OF loop] res have ls: "list_all isEntry ls"
      and len: "length ls = length (filter (\<lambda>i. int i < maxShow) [0..<nat bodyCount])"
      by simp_all
    have "0 \<le> maxShow" using True by (simp add: maxShow_def)
    with len have len': "length ls = min (nat bodyCount) (nat maxShow)"
      by (simp add: count_below)
    have "FunctionBodies c \<notin> set ls" using ls by (auto simp: list_all_iff)
    with c out have cb: "c = bodyCount" by (auto simp: hdr_def split: if_splits)
    show ?thesis
    proof (intro conjI impI)
      assume "0 < limit \<and> limit < c"
      with cb have "maxShow = limit" by (simp add: maxShow_def)
      with out len' cb ls hdr \<open>0 < limit \<and> limit < c\<close>
      show "listed out (nat limit) (Some (c - limit))"
        by (intro listedI [where pre = "hdr @ [Blank]" and es = ls]) simp_all
    next
      assume "limit = 0"
      then have "maxShow = bodyCount" by (simp add: maxShow_def)
      with out len' cb ls hdr show "listed out (nat c) None"
        by (intro listedI [where pre = "hdr @ [Blank]" and es = ls]) simp_all
    qed
  qed
qed

text \<open>
  Claim C7. Take one of the four listings (strings, position bases, packages, bodies of the
  private root) that runs to its end on a section of \<open>c\<close> elements. With a limit \<open>N\<close>,
  \<open>0 < N < c\<close>, it prints exactly \<open>N\<close> entries followed by the trailer for \<open>c - N\<close> more;
  with the limit 0 it prints all \<open>c\<close> entries and no trailer.
\<close>

theorem limit_listing:
  assumes "stringTable d limit = (out, None) \<and> c = NumElems d SectionString
     \<or> posBaseTable fmt d limit = (out, None) \<and> c = NumElems d SectionPosBase
     \<or> pkgTable fmt d limit = (out, None) \<and> c = NumElems d SectionPkg
     \<or> (\<exists>r'. privateRoot fmt d limit = (out, Inr r')) \<and> FunctionBodies c \<in> set out"
  shows "(0 < limit \<and> limit < c \<longrightarrow> listed out (nat limit) (Some (c - limit)))
       \<and> (limit = 0 \<longrightarrow> listed out (nat c) None)"
  using assms stringTable_listed posBaseTable_listed pkgTable_listed privateRoot_listed
  by blast

lemma sample_strings:
  "StringIdx sampleDecoder 0 = Inr ''hi''" "StringIdx sampleDecoder (Suc 0) = Inr ''yo''"
  by (simp_all add: StringIdx_def ElementRange_def NumElems_def sectionStart_def sampleDecoder_def
      sampleData_def)

lemma upt_nat_2: "[0..<nat 2] = [0, Suc 0]" "[0..<2] = [0, Suc 0]" "[0..<nat 1] = [0]"
  by (simp_all add: numeral_2_eq_2)

lemma andThen_pair:
  "andThen (a, None) b = (a @ fst b, snd b)" "andThen (a, Some e) b = (a, Some e)"
  by (simp_all add: andThen_def)

lemma sample_stringLoop:
  "stringLoop sampleDecoder [0] = ([StringEntry 0 ''hi''], None)"
  "stringLoop sampleDecoder [0, Suc 0] = ([StringEntry 0 ''hi'', StringEntry 1 ''yo''], None)"
  by (simp_all add: sample_strings andThen_pair say_def shorten_def escape_def)

lemma sample_stringCount: "NumElems sampleDecoder SectionString = 2"
  by (simp add: NumElems_def sectionStart_def sampleDecoder_def)

lemma sample_stringTable_limit1:
  "stringTable sampleDecoder 1 =
     ([TotalStrings 2, ShowingFirst 1, Blank, StringEntry 0 ''hi'', Trailer 1], None)"
  by (simp add: stringTable_def sample_stringCount upt_nat_2 sample_stringLoop andThen_pair say_def
      del: stringLoop.simps)

lemma sample_stringTable_limit0:
  "stringTable sampleDecoder 0 =
     ([TotalStrings 2, Blank, StringEntry 0 ''hi'', StringEntry 1 ''yo''], None)"
  by (simp add: stringTable_def sample_stringCount upt_nat_2 sample_stringLoop andThen_pair say_def
      del: stringLoop.simps)

theorem limit_listing_witness:
  "stringTable sampleDecoder 1 =
     ([TotalStrings 2, ShowingFirst 1, Blank, StringEntry 0 ''hi'', Trailer 1], None)
   \<and> listed [TotalStrings 2, ShowingFirst 1, Blank, StringEntry 0 ''hi'', Trailer 1] 1 (Some 1)
   \<and> stringTable sampleDecoder 0 =
     ([TotalStrings 2, Blank, StringEntry 0 ''hi'', StringEntry 1 ''yo''], None)
   \<and> listed [TotalStrings 2, Blank, StringEntry 0 ''hi'', StringEntry 1 ''yo''] 2 None
   \<and> listed [HasInittask False, FunctionBodies 2, Blank, BodyEntry 0 ''p'' ''f'' 0, Trailer 1]
        1 (Some 1)"
  using limit_listing [of sampleDecoder 1
      "[TotalStrings 2, ShowingFirst 1, Blank, StringEntry 0 ''hi'', Trailer 1]" 2 sampleFormat]
    limit_listing [of sampleDecoder 0
      "[TotalStrings 2, Blank, StringEntry 0 ''hi'', StringEntry 1 ''yo'']" 2 sampleFormat]
    limit_listing [of sampleDecoder 1
      "[HasInittask False, FunctionBodies 2, Blank, BodyEntry 0 ''p'' ''f'' 0, Trailer 1]" 2
      sampleFormat]
  by (simp add: sample_stringTable_limit1 sample_stringTable_limit0 sample_stringCount
      sample_privateRoot_limit1)

subsection \<open>The report on the sample payload\<close>

lemma sample_posBaseTable:
  "posBaseTable sampleFormat sampleDecoder 1 = ([PosBaseEntry 0 ''a.go'' True, Trailer 1], None)"
  by (simp add: posBaseTable_def NumElems_def sectionStart_def sampleDecoder_def upt_nat_2
      NewDecoder_def ElementRange_def sampleData_def decode_uvarint_small Sync_def String_def
      Uint64_def Bool_def andThen_pair say_def sampleFormat_def)

lemma sample_pkgTable:
  "pkgTable sampleFormat sampleDecoder 1 = ([PkgEntry 0 ''<self>'' ''main'', Trailer 1], None)"
  by (simp add: pkgTable_def pkgEntry_def NumElems_def sectionStart_def sampleDecoder_def upt_nat_2
      NewDecoder_def ElementRange_def sampleData_def decode_uvarint_small Sync_def String_def
      Uint64_def andThen_pair say_def sampleFormat_def)

lemma sample_objLoop:
  "objLoop sampleFormat [0] [] sampleDecoder = (Inr [(''Func'', 1)], sampleDecoder)"
  by (simp add: PeekObj_def samplePeek objTagName_def)

lemma sample_objCount: "NumElems sampleDecoder SectionObj = 1"
  by (simp add: NumElems_def sectionStart_def sampleDecoder_def)

lemma sample_objTable:
  "objTable sampleFormat sampleDecoder
     = (([TotalObjects 1, ObjCounts [(''Func'', 1)]], None), sampleDecoder)"
  by (simp add: objTable_def sample_objCount sample_objLoop say_def upt_nat_2 del: objLoop.simps)

lemma sample_sections:
  "map (\<lambda>(kind, name). SectionLine name (NumElems sampleDecoder kind)) sectionNames =
     [SectionLine ''String'' 2, SectionLine ''Meta'' 2, SectionLine ''PosBase'' 2,
      SectionLine ''Pkg'' 2, SectionLine ''Name'' 0, SectionLine ''Type'' 0,
      SectionLine ''Obj'' 1, SectionLine ''ObjExt'' 0, SectionLine ''ObjDict'' 0,
      SectionLine ''Body'' 2]"
  by (simp add: sectionNames_def NumElems_def sectionStart_def sampleDecoder_def)

lemma sample_report:
  "showDetailedFormat sampleFormat goodExport 1 =
     ([BannerTop, BannerTitle, BannerBottom, Blank,
       Heading ''=== Format Metadata ==='',
       SyncMarkersLine False, TotalElementsLine 11, FingerprintLine ''FINGERPR'', Blank,
       Heading ''=== Section Statistics ==='',
       SectionLine ''String'' 2, SectionLine ''Meta'' 2, SectionLine ''PosBase'' 2,
       SectionLine ''Pkg'' 2, SectionLine ''Name'' 0, SectionLine ''Type'' 0,
       SectionLine ''Obj'' 1, SectionLine ''ObjExt'' 0, SectionLine ''ObjDict'' 0,
       SectionLine ''Body'' 2,
       Blank, Heading ''=== String Table (Deduplicated Strings) ==='',
       TotalStrings 2, ShowingFirst 1, Blank, StringEntry 0 ''hi'', Trailer 1,
       Blank, Heading ''=== Position Bases (Source Files) ==='',
       PosBaseEntry 0 ''a.go'' True, Trailer 1,
       Blank, Heading ''=== Package Table ==='',
       PkgEntry 0 ''<self>'' ''main'', Trailer 1,
       Blank, Heading ''=== Type Table ==='', TotalTypes 0, Blank,
       Heading ''=== Object Table Summary ==='',
       TotalObjects 1, ObjCounts [(''Func'', 1)],
       Blank, Heading ''=== Private Root (Function Bodies & Internal Data) ==='',
       HasInittask False, FunctionBodies 2, Blank, BodyEntry 0 ''p'' ''f'' 0, Trailer 1,
       Blank, Rule, Blank],
      Returned None)"
proof -
  have types: "NumElems sampleDecoder SectionType = 0"
    by (simp add: NumElems_def sectionStart_def sampleDecoder_def)
  have meta: "SyncMarkers sampleDecoder = False" "TotalElems sampleDecoder = 11"
    "Fingerprint sampleDecoder = ''FINGERPR''"
    by (simp_all add: SyncMarkers_def TotalElems_def Fingerprint_def sampleDecoder_def)
  show ?thesis
    unfolding showDetailedFormat_def goodExport_def
    by (simp add: sampleDecoder_built sample_objTable sample_privateRoot_limit1 sample_sections
        sample_stringTable_limit1 sample_posBaseTable sample_pkgTable types meta
        andThen_pair say_def)
qed

section \<open>Properties of the command\<close>

text \<open>
  The only value that \<^verbatim>\<open>showDetailedFormat\<close> returns is \<^verbatim>\<open>nil\<close>; and the exits of \<^verbatim>\<open>main\<close>,
  branch by branch: usage and exit code 0 for \<^verbatim>\<open>--help\<close>, usage and exit code 1 without
  an archive argument, one diagnostic and exit code 1 when the file cannot be read or when
  \<^verbatim>\<open>extractPKGDEF\<close> or \<^verbatim>\<open>extractUnifiedIR\<close> return an error, exit code 0 when the report
  is complete, and exit code 2 with the panic report when a panic is not recovered.
\<close>

lemma showDetailedFormat_returns_nil:
  "showDetailedFormat fmt exportData limit \<noteq> (out, Returned (Some err))"
  by (auto simp: showDetailedFormat_def Let_def split: sum.splits prod.splits option.splits)

lemma parseFlags_samples:
  "parseFlags pint 0 [] = Parsed 0 []"
  "parseFlags pint 0 [''--help''] = HelpRequested"
  "parseFlags pint 0 [''-h''] = HelpRequested"
  "parseFlags pint 0 [''short.a''] = Parsed 0 [''short.a'']"
  "parseFlags pint 0 [''negative.a''] = Parsed 0 [''negative.a'']"
  "parseFlags pint 0 [''text.a''] = Parsed 0 [''text.a'']"
  by (simp_all add: Let_def)

lemma main_exits:
  fixes e :: env and args :: "string list"
  defines "run limit rest \<equiv> parseFlags (parseInt e) 0 args = Parsed limit rest"
  shows "parseFlags (parseInt e) 0 args = HelpRequested \<Longrightarrow>
           main e args = Some \<lparr>exitCode = 0, stderr = [Usage], stdout = []\<rparr>"
    and "run limit [] \<Longrightarrow> main e args = Some \<lparr>exitCode = 1, stderr = [Usage], stdout = []\<rparr>"
    and "run limit (path # others) \<Longrightarrow> readFile e path = None \<Longrightarrow>
           main e args = Some \<lparr>exitCode = 1, stderr = [ErrorReadingFile], stdout = []\<rparr>"
    and "run limit (path # others) \<Longrightarrow> readFile e path = Some data \<Longrightarrow>
           extractPKGDEF data = Some (Inl err) \<Longrightarrow> err \<noteq> SliceBoundsPanic \<Longrightarrow>
           main e args = Some \<lparr>exitCode = 1, stderr = [ErrorExtractingPKGDEF err], stdout = []\<rparr>"
    and "run limit (path # others) \<Longrightarrow> readFile e path = Some data \<Longrightarrow>
           extractPKGDEF data = Some (Inr pkgdefData) \<Longrightarrow> extractUnifiedIR pkgdefData = Inl ferr \<Longrightarrow>
           main e args = Some \<lparr>exitCode = 1, stderr = [ErrorExtractingUnifiedIR ferr], stdout = []\<rparr>"
    and "run limit (path # others) \<Longrightarrow> readFile e path = Some data \<Longrightarrow>
           extractPKGDEF data = Some (Inr pkgdefData) \<Longrightarrow> extractUnifiedIR pkgdefData = Inr uirData \<Longrightarrow>
           showDetailedFormat (pkgbits e) uirData limit = (out, Returned None) \<Longrightarrow>
           main e args = Some \<lparr>exitCode = 0, stderr = [], stdout = out\<rparr>"
    and "run limit (path # others) \<Longrightarrow> readFile e path = Some data \<Longrightarrow>
           extractPKGDEF data = Some (Inr pkgdefData) \<Longrightarrow> extractUnifiedIR pkgdefData = Inr uirData \<Longrightarrow>
           showDetailedFormat (pkgbits e) uirData limit = (out, Panicked derr) \<Longrightarrow>
           main e args = Some \<lparr>exitCode = 2, stderr = [PanicTrace], stdout = out\<rparr>"
    and "run limit (path # others) \<Longrightarrow> readFile e path = Some data \<Longrightarrow>
           extractPKGDEF data = Some (Inl SliceBoundsPanic) \<Longrightarrow>
           main e args = Some \<lparr>exitCode = 2, stderr = [PanicTrace], stdout = []\<rparr>"
    and "run limit (path # others) \<Longrightarrow> readFile e path = Some data \<Longrightarrow>
           extractPKGDEF data = None \<Longrightarrow> main e args = None"
  unfolding run_def
  by (cases err; simp add: main_def)+

lemma short_archive:
  "entryName shortArchive 8 = ''__.PKGDEF''"
  "entrySize shortArchive 8 = 23"
  "prefix arMagic shortArchive"
  "slice shortArchive 68 91 = pkgdefOf ''uabc''"
  "int (length shortArchive) = 91"
  by code_simp+

lemma short_extract: "extractPKGDEF shortArchive = Some (Inr (pkgdefOf ''uabc''))"
  using scanEntries_found [of 8 shortArchive]
  by (simp add: extractPKGDEF_def short_archive)

lemma short_framing: "extractUnifiedIR (pkgdefOf ''uabc'') = Inr ''uabc''"
  by code_simp

lemma short_decode: "showDetailedFormat sampleFormat ''uabc'' limit = ([], Panicked StructuralError)"
  by (simp add: showDetailedFormat_def NewPkgDecoder_def read_u32_def)

lemma negative_archive:
  "entryName negativeArchive 8 = ''__.PKGDEF''"
  "entrySize negativeArchive 8 = - 1"
  "prefix arMagic negativeArchive"
  "int (length negativeArchive) = 77"
  by code_simp+

lemma negative_extract: "extractPKGDEF negativeArchive = Some (Inl SliceBoundsPanic)"
  using scanEntries_found [of 8 negativeArchive]
  by (simp add: extractPKGDEF_def negative_archive)

lemma sample_env:
  "parseInt sampleEnv = sampleParseInt" "pkgbits sampleEnv = sampleFormat"
  "readFile sampleEnv ''good.a'' = Some goodArchive"
  "readFile sampleEnv ''short.a'' = Some shortArchive"
  "readFile sampleEnv ''negative.a'' = Some negativeArchive"
  "readFile sampleEnv ''text.a'' = Some textArchive"
  by (simp_all add: sampleEnv_def sampleFiles_def)

text \<open>
  Claim C8 asks for exit code 1 and a one-line diagnostic on every extraction, framing or
  structural decode failure. Two archives on which the command does otherwise: one whose
  framed payload is too short for the envelope header, where the decoder's failure is a
  panic that \<^verbatim>\<open>showDetailedFormat\<close> does not turn into its error result; and one whose
  \<^verbatim>\<open>__.PKGDEF\<close> header declares the size \<^verbatim>\<open>-1\<close>, where the slice expression of
  \<^verbatim>\<open>extractPKGDEF\<close> panics. Both runs end with exit code 2 and the panic report of the run
  time.
\<close>

theorem main_panic_exit_code:
  "main sampleEnv [''short.a''] = Some \<lparr>exitCode = 2, stderr = [PanicTrace], stdout = []\<rparr>
   \<and> main sampleEnv [''negative.a''] = Some \<lparr>exitCode = 2, stderr = [PanicTrace], stdout = []\<rparr>"
proof
  show "main sampleEnv [''short.a''] = Some \<lparr>exitCode = 2, stderr = [PanicTrace], stdout = []\<rparr>"
    using parseFlags_samples(4) [of sampleParseInt] short_extract short_framing short_decode [of 0]
    by (simp add: main_def sample_env)
next
  show "main sampleEnv [''negative.a''] = Some \<lparr>exitCode = 2, stderr = [PanicTrace], stdout = []\<rparr>"
    using parseFlags_samples(5) [of sampleParseInt] negative_extract
    by (simp add: main_def sample_env)
qed

text \<open>
  For comparison, two runs that end as the specification says: the sample archive with
  \<^verbatim>\<open>--limit 1\<close> gives the complete report and exit code 0, and an archive whose
  \<^verbatim>\<open>__.PKGDEF\<close> entry lacks the binary framing gives one diagnostic and exit code 1.
\<close>

lemma good_archive:
  "entryName goodArchive 8 = ''__.PKGDEF''"
  "entrySize goodArchive 8 = 170"
  "prefix arMagic goodArchive"
  "slice goodArchive 68 238 = pkgdefOf goodExport"
  "int (length goodArchive) = 238"
  by code_simp+

lemma good_extract: "extractPKGDEF goodArchive = Some (Inr (pkgdefOf goodExport))"
  using scanEntries_found [of 8 goodArchive]
  by (simp add: extractPKGDEF_def good_archive)

lemma good_framing: "extractUnifiedIR (pkgdefOf goodExport) = Inr goodExport"
  by code_simp

lemma good_flags: "parseFlags sampleParseInt 0 [''--limit'', ''1'', ''good.a''] = Parsed 1 [''good.a'']"
  by (simp add: Let_def sampleParseInt_def isDigit_def)

lemma main_good_run:
  "main sampleEnv [''--limit'', ''1'', ''good.a''] =
     Some \<lparr>exitCode = 0, stderr = [],
           stdout = fst (showDetailedFormat sampleFormat goodExport 1)\<rparr>"
  using good_flags good_extract good_framing sample_report
  by (simp add: main_def sample_env)

lemma text_archive:
  "entryName textArchive 8 = ''__.PKGDEF''"
  "entrySize textArchive 8 = 9"
  "prefix arMagic textArchive"
  "slice textArchive 68 77 = ''go object''"
  "int (length textArchive) = 77"
  by code_simp+

lemma text_extract: "extractPKGDEF textArchive = Some (Inr ''go object'')"
  using scanEntries_found [of 8 textArchive]
  by (simp add: extractPKGDEF_def text_archive)

lemma text_framing: "extractUnifiedIR ''go object'' = Inl NoStartMarker"
  by code_simp

lemma main_framing_run:
  "main sampleEnv [''text.a''] =
     Some \<lparr>exitCode = 1, stderr = [ErrorExtractingUnifiedIR NoStartMarker], stdout = []\<rparr>"
  using text_extract text_framing
  by (simp add: main_def sample_env Let_def)

end
